theory Spec2Isabelle
  imports Main
begin

section \<open>MediBot: chat payload, reply extraction and the submit handler\<close>

text \<open>
  A shallow embedding of \<^verbatim>\<open>main.py\<close>: the function \<^verbatim>\<open>get_medibot_reply\<close>
  (lines 33 to 86) and the module-level submit handler (lines 143 to 152).
  The page layout, the CSS and the start-up configuration are not modelled.
\<close>

subsection \<open>Python strings\<close>

text \<open>
  A Python \<^verbatim>\<open>str\<close> is a sequence of Unicode code points. The prompt template holds
  the code points U+26A0 and U+FE0F, and \<^verbatim>\<open>str.strip\<close> decides by code point, so a
  string is a list of code points here, not a list of bytes.
\<close>

type_synonym pystr = "nat list"

definition str :: "string \<Rightarrow> pystr" where
  "str s = map of_char s"

text \<open>
  The code points that \<^verbatim>\<open>str.strip()\<close> without argument removes: the ones for
  which \<^verbatim>\<open>str.isspace\<close> holds.
\<close>

definition py_isspace :: "nat \<Rightarrow> bool" where
  "py_isspace c \<longleftrightarrow>
     (9 \<le> c \<and> c \<le> 13) \<or> (28 \<le> c \<and> c \<le> 32) \<or> c = 133 \<or> c = 160 \<or> c = 5760 \<or>
     (8192 \<le> c \<and> c \<le> 8202) \<or> c = 8232 \<or> c = 8233 \<or> c = 8239 \<or> c = 8287 \<or> c = 12288"

definition lstrip :: "pystr \<Rightarrow> pystr" where
  "lstrip s = dropWhile py_isspace s"

definition rstrip :: "pystr \<Rightarrow> pystr" where
  "rstrip s = rev (dropWhile py_isspace (rev s))"

definition strip :: "pystr \<Rightarrow> pystr" where
  "strip s = rstrip (lstrip s)"

text \<open>Truthiness of a \<^verbatim>\<open>str\<close> or \<^verbatim>\<open>None\<close> value: \<^verbatim>\<open>None\<close> and \<^verbatim>\<open>""\<close> are false.\<close>

fun truthy :: "pystr option \<Rightarrow> bool" where
  "truthy None = False"
| "truthy (Some s) = (s \<noteq> [])"

subsection \<open>The data of the program\<close>

text \<open>
  A message of \<^verbatim>\<open>st.session_state.messages\<close> is a dict with the two keys
  \<^verbatim>\<open>"role"\<close> and \<^verbatim>\<open>"content"\<close>, both strings (line 144 and line 149 are the only
  places that build one). The role stays a string: \<^verbatim>\<open>get_medibot_reply\<close> compares
  it with two literals and skips a message that has neither.
\<close>

record message =
  role :: pystr
  content :: pystr

text \<open>
  A part of a payload turn: a text, or the dict
  \<^verbatim>\<open>{"inline_data": {"mime_type": ..., "data": ...}}\<close> of lines 53 to 58.
\<close>

datatype part = Text pystr | Inline_data (mime_type: pystr) (data: pystr)

record turn =
  turn_role :: pystr
  parts :: "part list"

subsection \<open>The prompt template (lines 22 to 31)\<close>

text \<open>
  \<^verbatim>\<open>SYSTEM_PROMPT_TEMPLATE\<close> has one replacement field, \<^verbatim>\<open>{language}\<close>, and no other
  brace; \<^verbatim>\<open>format(language=language)\<close> puts the argument in its place, unchanged.
  The template is given as the text before the field and the text after it.
  Code point 10 is the line feed, 39 the apostrophe.
\<close>

definition warning_sign :: pystr where
  "warning_sign = [0x26A0, 0xFE0F]"

definition SYSTEM_PROMPT_before :: pystr where
  "SYSTEM_PROMPT_before =
     str ''You are MediBot, a soft-spoken, empathetic medical advisory assistant.'' @ [10] @
     str ''- Speak in a caring, calm tone.'' @ [10] @
     str ''- Your primary role is to provide general, educational information about symptoms and conditions.'' @ [10] @
     str ''- DO NOT provide any diagnoses, prescriptions, or definitive medical advice. This is crucial.'' @ [10] @
     str ''- If the user asks an unrelated question, reply gently: '' @ [39] @ warning_sign @
     str '' I can only help with medical-related queries.'' @ [39] @ [10] @
     str ''- For any medical query, always provide information on self-care measures and strongly recommend consulting a healthcare professional.'' @ [10] @
     str ''- Use the requested language: ''"

definition SYSTEM_PROMPT_after :: pystr where
  "SYSTEM_PROMPT_after =
     str ''.'' @ [10] @
     str ''- End every response with the disclaimer: '' @ [39] @ warning_sign @
     str '' This is not a substitute for professional medical consultation.'' @ [39] @ [10, 10]"

definition SYSTEM_PROMPT_format :: "pystr \<Rightarrow> pystr" where
  "SYSTEM_PROMPT_format language = SYSTEM_PROMPT_before @ language @ SYSTEM_PROMPT_after"

definition acknowledgment :: pystr where
  "acknowledgment = str ''Understood. I will follow all the provided instructions.''"

subsection \<open>Building the payload (lines 39 to 58)\<close>

definition priming_pair :: "pystr \<Rightarrow> turn list" where
  "priming_pair language =
     [\<lparr>turn_role = str ''user'', parts = [Text (SYSTEM_PROMPT_format language)]\<rparr>,
      \<lparr>turn_role = str ''model'', parts = [Text acknowledgment]\<rparr>]"

text \<open>The loop of lines 44 to 48: \<^verbatim>\<open>h\<close> is \<^verbatim>\<open>conversation_history\<close> so far.\<close>

fun add_history :: "turn list \<Rightarrow> message list \<Rightarrow> turn list" where
  "add_history h [] = h"
| "add_history h (m # ms) =
     (if role m = str ''user''
        then add_history (h @ [\<lparr>turn_role = str ''user'', parts = [Text (content m)]\<rparr>]) ms
      else if role m = str ''assistant''
        then add_history (h @ [\<lparr>turn_role = str ''model'', parts = [Text (content m)]\<rparr>]) ms
      else add_history h ms)"

text \<open>
  Lines 51 to 58. The test is \<^verbatim>\<open>attachment_b64 and conversation_history\<close>: the
  attachment is a non-empty string and the list is not empty. The part goes to the end of
  the parts of the last turn.
\<close>

definition inline_part :: "pystr \<Rightarrow> part" where
  "inline_part b64 = Inline_data (str ''image/png'') b64"

fun add_attachment :: "pystr option \<Rightarrow> turn list \<Rightarrow> turn list" where
  "add_attachment None h = h"
| "add_attachment (Some b64) h =
     (if b64 \<noteq> [] \<and> h \<noteq> []
        then butlast h @ [(last h)\<lparr>parts := parts (last h) @ [inline_part b64]\<rparr>]
      else h)"

definition build :: "message list \<Rightarrow> pystr \<Rightarrow> pystr option \<Rightarrow> turn list" where
  "build messages language attachment_b64 =
     add_attachment attachment_b64 (add_history (priming_pair language) messages)"

subsection \<open>The remote library\<close>

text \<open>
  \<^verbatim>\<open>google.generativeai\<close> is not part of the program. What the program reads of a
  response is whether the response is true, its \<^verbatim>\<open>text\<close> (here \<open>resp_text\<close>) and whether its
  \<^verbatim>\<open>prompt_feedback\<close> is true. A response that is \<^verbatim>\<open>None\<close> is \<open>None\<close> here.
\<close>

record response =
  resp_text :: "pystr option"
  prompt_feedback :: bool

datatype remote_outcome = Raises | Returns "response option"

text \<open>
  The three calls into the library, each of which may raise: the constructor
  \<^verbatim>\<open>GenerativeModel\<close> (line 36), \<^verbatim>\<open>start_chat\<close> (line 69) and
  \<^verbatim>\<open>send_message\<close> (line 74), which gets the history the chat was started with and
  the text to send. \<open>Raises\<close> of \<open>send_message\<close> stands for any exception raised from
  line 74 to line 82.
\<close>

record remote_api =
  model_ok :: bool
  start_chat_ok :: "turn list \<Rightarrow> bool"
  send_message :: "turn list \<Rightarrow> pystr \<Rightarrow> remote_outcome"

datatype exn = Model_error | Chat_error | IndexError | Remote_error

text \<open>What the program does that can be seen from outside, in order.\<close>

datatype event =
    Start_chat "turn list"
  | Send_message "turn list" pystr
  | Print_blocked
  | St_error exn

subsection \<open>The reply (lines 76 to 86)\<close>

definition safety_apology :: pystr where
  "safety_apology =
     str ''I'' @ [39] @ str ''m sor'' @
     str ''ry, I cannot respond to that query. It may have been flagged for safety reasons.''"

definition retry_message :: pystr where
  "retry_message = str ''Sor'' @ str ''ry, I couldn'' @ [39] @ str ''t generate a response. Please try again.''"

definition internal_error :: pystr where
  "internal_error = str ''An internal error occurred. Please try again.''"

text \<open>Lines 79 to 82, the \<^verbatim>\<open>else\<close> branch.\<close>

definition no_text :: "response option \<Rightarrow> pystr \<times> event list" where
  "no_text response =
     (case response of
        None \<Rightarrow> (retry_message, [])
      | Some r \<Rightarrow>
          if prompt_feedback r then (safety_apology, [Print_blocked])
          else (retry_message, []))"

text \<open>Lines 76 to 82: \<^verbatim>\<open>response and response.text\<close> decides.\<close>

definition reply_of_response :: "response option \<Rightarrow> pystr \<times> event list" where
  "reply_of_response response =
     (case response of
        None \<Rightarrow> no_text response
      | Some r \<Rightarrow>
          (case resp_text r of
             None \<Rightarrow> no_text response
           | Some t \<Rightarrow> if t \<noteq> [] then (t, []) else no_text response))"

text \<open>What the \<^verbatim>\<open>try\<close> body yields from line 74 on: an exception or the reply.\<close>

definition after_send :: "remote_outcome \<Rightarrow> (exn + pystr) \<times> event list" where
  "after_send outcome =
     (case outcome of
        Raises \<Rightarrow> (Inl Remote_error, [])
      | Returns response \<Rightarrow> (Inr (fst (reply_of_response response)), snd (reply_of_response response)))"

text \<open>Lines 84 to 86: every exception of the body ends in the fixed string.\<close>

definition except_handler :: "(exn + pystr) \<times> event list \<Rightarrow> pystr \<times> event list" where
  "except_handler r =
     (case fst r of
        Inl e \<Rightarrow> (internal_error, snd r @ [St_error e])
      | Inr reply \<Rightarrow> (reply, snd r))"

text \<open>The reply extractor: from the outcome of the remote call to the text shown.\<close>

definition extract_reply :: "remote_outcome \<Rightarrow> pystr" where
  "extract_reply outcome = fst (except_handler (after_send outcome))"

subsection \<open>\<^verbatim>\<open>get_medibot_reply\<close> (lines 33 to 86)\<close>

text \<open>
  The body of the \<^verbatim>\<open>try\<close>. \<^verbatim>\<open>messages[-1]\<close> (line 72) raises
  \<^verbatim>\<open>IndexError\<close> on the empty list; it is read after \<^verbatim>\<open>start_chat\<close> returned.
\<close>

definition try_body ::
  "remote_api \<Rightarrow> message list \<Rightarrow> pystr \<Rightarrow> pystr option \<Rightarrow> (exn + pystr) \<times> event list" where
  "try_body api messages language attachment_b64 =
     (if \<not> model_ok api then (Inl Model_error, [])
      else
        let conversation_history = build messages language attachment_b64 in
        if \<not> start_chat_ok api conversation_history
          then (Inl Chat_error, [Start_chat conversation_history])
        else if messages = []
          then (Inl IndexError, [Start_chat conversation_history])
        else
          let last_user_message_content = content (last messages);
              r = after_send (send_message api conversation_history last_user_message_content)
          in (fst r,
              [Start_chat conversation_history,
               Send_message conversation_history last_user_message_content] @ snd r))"

definition get_medibot_reply ::
  "remote_api \<Rightarrow> message list \<Rightarrow> pystr \<Rightarrow> pystr option \<Rightarrow> pystr \<times> event list" where
  "get_medibot_reply api messages language attachment_b64 =
     except_handler (try_body api messages language attachment_b64)"

subsection \<open>The submit handler (lines 143 to 152)\<close>

text \<open>
  The handler has no name in the source; it is the interaction loop of one turn.
  \<open>messages\<close> is \<^verbatim>\<open>st.session_state.messages\<close>, \<open>attachment_b64\<close> what lines 130
  to 133 left: \<^verbatim>\<open>None\<close> without an upload, the encoded file otherwise. The result is
  the list after the handler and the events of the turn.
\<close>

definition handle_turn ::
  "remote_api \<Rightarrow> bool \<Rightarrow> pystr \<Rightarrow> pystr option \<Rightarrow> message list \<Rightarrow> message list \<times> event list" where
  "handle_turn api submitted user_input attachment_b64 messages =
     (if submitted \<and> strip user_input \<noteq> [] then
        let user_msg = \<lparr>role = str ''user'', content = strip user_input\<rparr>;
            messages1 = messages @ [user_msg];
            r = get_medibot_reply api messages1 (str ''English'') attachment_b64;
            bot_msg = \<lparr>role = str ''assistant'', content = fst r\<rparr>
        in (messages1 @ [bot_msg], snd r)
      else (messages, []))"

text \<open>A session: the handler run on one submission after the other.\<close>

record submission =
  sub_api :: remote_api
  sub_submitted :: bool
  sub_user_input :: pystr
  sub_attachment :: "pystr option"

fun session :: "message list \<Rightarrow> submission list \<Rightarrow> message list" where
  "session messages [] = messages"
| "session messages (s # ss) =
     session (fst (handle_turn (sub_api s) (sub_submitted s) (sub_user_input s)
                     (sub_attachment s) messages)) ss"

subsection \<open>The payload builder on a store of objects\<close>

text \<open>
  Lists and dicts are objects that the program shares and changes in place:
  \<^verbatim>\<open>append\<close> at line 53 changes a list that a dict of the payload refers to. To see
  what the builder can change, lines 39 to 58 are given a second time, on a store: the
  list of all objects, an address being an index, a new object going to the end. A value is
  \<^verbatim>\<open>None\<close>, a string (strings cannot be changed) or the address of an object.
\<close>

datatype pyval = VNone | VStr pystr | VRef nat

datatype pyobj = PyDict "(pystr \<times> pyval) list" | PyList "pyval list"

type_synonym store = "pyobj list"

definition alloc :: "pyobj \<Rightarrow> store \<Rightarrow> nat \<times> store" where
  "alloc obj s = (length s, s @ [obj])"

text \<open>\<^verbatim>\<open>d.get(k)\<close>: the value of the key, \<^verbatim>\<open>None\<close> without the key.\<close>

definition dict_get :: "(pystr \<times> pyval) list \<Rightarrow> pystr \<Rightarrow> pyval" where
  "dict_get kvs k = (case map_of kvs k of None \<Rightarrow> VNone | Some v \<Rightarrow> v)"

text \<open>
  \<^verbatim>\<open>xs.append(v)\<close> for the list at address \<open>a\<close>. The builder appends only to
  lists that it made; at any other address the store is left as it is.
\<close>

definition list_append :: "nat \<Rightarrow> pyval \<Rightarrow> store \<Rightarrow> store" where
  "list_append a v s =
     (if a < length s
        then (case s ! a of PyList vs \<Rightarrow> s[a := PyList (vs @ [v])] | PyDict kvs \<Rightarrow> s)
      else s)"

text \<open>
  \<^verbatim>\<open>conversation_history.append({"role": r, "parts": [c]})\<close>, as at lines 40, 41, 46
  and 48: the list of parts is made first, then the dict, then the dict is appended to the
  list at \<open>a_h\<close>.
\<close>

definition append_turn :: "nat \<Rightarrow> pystr \<Rightarrow> pyval \<Rightarrow> store \<Rightarrow> store" where
  "append_turn a_h r c s =
     (let (p, s1) = alloc (PyList [c]) s;
          (d, s2) = alloc (PyDict [(str ''role'', VStr r), (str ''parts'', VRef p)]) s1
      in list_append a_h (VRef d) s2)"

text \<open>What a \<^verbatim>\<open>for\<close> loop over the object at \<open>a\<close> visits: the elements of a list, the keys of a dict.\<close>

definition store_elems :: "store \<Rightarrow> nat \<Rightarrow> pyval list" where
  "store_elems s a =
     (if a < length s
        then (case s ! a of PyList vs \<Rightarrow> vs | PyDict kvs \<Rightarrow> map (\<lambda>kv. VStr (fst kv)) kvs)
      else [])"

text \<open>
  The loop of lines 44 to 48 over the elements of \<^verbatim>\<open>messages\<close>. The result is
  \<open>False\<close> when \<^verbatim>\<open>m.get\<close> raises because an element is not a dict.
\<close>

fun store_add_history :: "nat \<Rightarrow> pyval list \<Rightarrow> store \<Rightarrow> bool \<times> store" where
  "store_add_history a_h [] s = (True, s)"
| "store_add_history a_h (VRef d # vs) s =
     (if d < length s then
        (case s ! d of
           PyDict kvs \<Rightarrow>
             if dict_get kvs (str ''role'') = VStr (str ''user'')
               then store_add_history a_h vs
                      (append_turn a_h (str ''user'') (dict_get kvs (str ''content'')) s)
             else if dict_get kvs (str ''role'') = VStr (str ''assistant'')
               then store_add_history a_h vs
                      (append_turn a_h (str ''model'') (dict_get kvs (str ''content'')) s)
             else store_add_history a_h vs s
         | PyList xs \<Rightarrow> (False, s))
      else (False, s))"
| "store_add_history a_h (v # vs) s = (False, s)"

text \<open>
  Lines 51 to 58: the inner dict is made first, then the outer one, then it is appended to
  the list under \<^verbatim>\<open>"parts"\<close> of the last element of the history. That element is a
  dict with this key, made by the builder; in the other branches, which the builder never
  reaches, the store is left as it is.
\<close>

definition store_add_attachment :: "pystr option \<Rightarrow> nat \<Rightarrow> store \<Rightarrow> store" where
  "store_add_attachment attachment_b64 a_h s =
     (case attachment_b64 of
        None \<Rightarrow> s
      | Some b64 \<Rightarrow>
          if b64 \<noteq> [] \<and> store_elems s a_h \<noteq> [] then
            (case last (store_elems s a_h) of
               VRef d \<Rightarrow>
                 if d < length s then
                   (case s ! d of
                      PyDict kvs \<Rightarrow>
                        (case dict_get kvs (str ''parts'') of
                           VRef p \<Rightarrow>
                             (let (i, s1) = alloc (PyDict [(str ''mime_type'', VStr (str ''image/png'')),
                                                          (str ''data'', VStr b64)]) s;
                                  (j, s2) = alloc (PyDict [(str ''inline_data'', VRef i)]) s1
                              in list_append p (VRef j) s2)
                         | _ \<Rightarrow> s)
                    | PyList xs \<Rightarrow> s)
                 else s
             | _ \<Rightarrow> s)
          else s)"

text \<open>
  Lines 39 to 58 on the store \<open>s\<close> with \<^verbatim>\<open>messages\<close> at address \<open>a_msgs\<close>: the
  address of \<^verbatim>\<open>conversation_history\<close>, or \<open>None\<close> after an exception, and the store
  after it.
\<close>

definition store_build :: "store \<Rightarrow> nat \<Rightarrow> pystr \<Rightarrow> pystr option \<Rightarrow> (nat option) \<times> store" where
  "store_build s a_msgs language attachment_b64 =
     (let (a_h, s1) = alloc (PyList []) s;
          s2 = append_turn a_h (str ''user'') (VStr (SYSTEM_PROMPT_format language)) s1;
          s3 = append_turn a_h (str ''model'') (VStr acknowledgment) s2;
          (ok, s4) = store_add_history a_h (store_elems s3 a_msgs) s3
      in if ok then (Some a_h, store_add_attachment attachment_b64 a_h s4) else (None, s4))"

text \<open>A store with a list of two messages at address 0.\<close>

definition store0 :: store where
  "store0 = [PyList [VRef 1, VRef 2],
     PyDict [(str ''role'', VStr (str ''user'')), (str ''content'', VStr (str ''hi''))],
     PyDict [(str ''role'', VStr (str ''assistant'')), (str ''content'', VStr (str ''ok''))]]"

text \<open>
  What the builder made so far: the history at \<open>a_h\<close> is a list of dicts, each with a
  list of parts at an address from \<open>n\<close> on.
\<close>

fun fresh_turn :: "nat \<Rightarrow> store \<Rightarrow> pyval \<Rightarrow> bool" where
  "fresh_turn n s (VRef d) =
     (d < length s \<and>
      (case s ! d of
         PyDict kvs \<Rightarrow> (case dict_get kvs (str ''parts'') of VRef p \<Rightarrow> n \<le> p | _ \<Rightarrow> False)
       | PyList xs \<Rightarrow> False))"
| "fresh_turn n s v = False"

definition fresh_history :: "nat \<Rightarrow> nat \<Rightarrow> store \<Rightarrow> bool" where
  "fresh_history n a_h s \<longleftrightarrow>
     n \<le> a_h \<and> a_h < length s \<and>
     (case s ! a_h of PyList vs \<Rightarrow> list_all (fresh_turn n s) vs | PyDict kvs \<Rightarrow> False)"

text \<open>The dict of a message, as lines 144 and 149 build it.\<close>

definition msg_obj :: "message \<Rightarrow> pyobj" where
  "msg_obj m = PyDict [(str ''role'', VStr (role m)), (str ''content'', VStr (content m))]"

text \<open>
  Reading a payload back from the store: the turns of the list at an address, each a dict
  with a role and a list of parts, each part a string or the two dicts of lines 53 to 58.
  The result is \<open>None\<close> when an object is not of that shape.
\<close>

fun read_inline :: "store \<Rightarrow> pyval \<Rightarrow> part option" where
  "read_inline s (VRef i) =
     (if i < length s then
        (case s ! i of
           PyDict kvs \<Rightarrow>
             (case dict_get kvs (str ''mime_type'') of
                VStr m \<Rightarrow>
                  (case dict_get kvs (str ''data'') of
                     VStr d \<Rightarrow> Some (Inline_data m d)
                   | _ \<Rightarrow> None)
              | _ \<Rightarrow> None)
         | PyList xs \<Rightarrow> None)
      else None)"
| "read_inline s v = None"

fun read_part :: "store \<Rightarrow> pyval \<Rightarrow> part option" where
  "read_part s (VStr t) = Some (Text t)"
| "read_part s (VRef j) =
     (if j < length s then
        (case s ! j of
           PyDict kvs \<Rightarrow> read_inline s (dict_get kvs (str ''inline_data''))
         | PyList xs \<Rightarrow> None)
      else None)"
| "read_part s VNone = None"

fun read_parts :: "store \<Rightarrow> pyval \<Rightarrow> part list option" where
  "read_parts s (VRef p) =
     (if p < length s then
        (case s ! p of
           PyList pvs \<Rightarrow> those (map (read_part s) pvs)
         | PyDict kvs \<Rightarrow> None)
      else None)"
| "read_parts s v = None"

fun read_turn :: "store \<Rightarrow> pyval \<Rightarrow> turn option" where
  "read_turn s (VRef d) =
     (if d < length s then
        (case s ! d of
           PyDict kvs \<Rightarrow>
             (case dict_get kvs (str ''role'') of
                VStr r \<Rightarrow>
                  map_option (\<lambda>ps. \<lparr>turn_role = r, parts = ps\<rparr>)
                    (read_parts s (dict_get kvs (str ''parts'')))
              | _ \<Rightarrow> None)
         | PyList xs \<Rightarrow> None)
      else None)"
| "read_turn s v = None"

definition read_payload :: "store \<Rightarrow> nat \<Rightarrow> turn list option" where
  "read_payload s a =
     (if a < length s then
        (case s ! a of
           PyList vs \<Rightarrow> those (map (read_turn s) vs)
         | PyDict kvs \<Rightarrow> None)
      else None)"

text \<open>
  The shape of the store while the builder runs on a store \<open>s0\<close>: after \<open>s0\<close> the list
  \<^verbatim>\<open>conversation_history\<close>, then for each turn its list of parts and its dict, and for
  an attachment the two dicts of the inline data.
\<close>

fun layout :: "nat \<Rightarrow> (pystr \<times> pyval list) list \<Rightarrow> store" where
  "layout p [] = []"
| "layout p (x # xs) =
     PyList (snd x) # PyDict [(str ''role'', VStr (fst x)), (str ''parts'', VRef p)] #
     layout (p + 2) xs"

definition hist_list :: "nat \<Rightarrow> nat \<Rightarrow> pyobj" where
  "hist_list n k = PyList (map (\<lambda>i. VRef (n + 2 + 2 * i)) [0..<k])"

definition hist_store :: "store \<Rightarrow> (pystr \<times> pyval list) list \<Rightarrow> store" where
  "hist_store s0 xs = s0 @ hist_list (length s0) (length xs) # layout (length s0 + 1) xs"

definition inline_objs :: "nat \<Rightarrow> pystr \<Rightarrow> store" where
  "inline_objs i b64 =
     [PyDict [(str ''mime_type'', VStr (str ''image/png'')), (str ''data'', VStr b64)],
      PyDict [(str ''inline_data'', VRef i)]]"

text \<open>The values held by the parts of a turn of texts.\<close>

fun part_val :: "part \<Rightarrow> pyval" where
  "part_val (Text c) = VStr c"
| "part_val (Inline_data m d) = VNone"

definition turn_vals :: "turn \<Rightarrow> pystr \<times> pyval list" where
  "turn_vals t = (turn_role t, map part_val (parts t))"

subsection \<open>Notions of the specification\<close>

text \<open>
  The two messages the handler builds, at line 144 and at line 149.
\<close>

definition user_msg :: "pystr \<Rightarrow> message" where
  "user_msg user_input = \<lparr>role = str ''user'', content = strip user_input\<rparr>"

definition bot_msg :: "pystr \<Rightarrow> message" where
  "bot_msg reply_text = \<lparr>role = str ''assistant'', content = reply_text\<rparr>"

text \<open>
  A message of the transcript has the role \<^verbatim>\<open>user\<close> or \<^verbatim>\<open>assistant\<close>; the
  payload turn of such a message, in the words of the specification: the role
  \<^verbatim>\<open>user\<close> or \<^verbatim>\<open>model\<close> and the content as the only part.
\<close>

definition known_role :: "message \<Rightarrow> bool" where
  "known_role m \<longleftrightarrow> role m = str ''user'' \<or> role m = str ''assistant''"

definition spec_turn :: "message \<Rightarrow> turn" where
  "spec_turn m =
     \<lparr>turn_role = (if role m = str ''user'' then str ''user'' else str ''model''),
      parts = [Text (content m)]\<rparr>"

text \<open>A turn carries inline data when one of its parts is an inline data part.\<close>

fun is_inline :: "part \<Rightarrow> bool" where
  "is_inline (Text s) = False"
| "is_inline (Inline_data m d) = True"

definition carries_inline :: "turn \<Rightarrow> bool" where
  "carries_inline t = list_ex is_inline (parts t)"

text \<open>
  Strict alternation after completed cycles: the list is a sequence of pairs, a
  \<^verbatim>\<open>user\<close> message and then an \<^verbatim>\<open>assistant\<close> message.
\<close>

fun alternating :: "message list \<Rightarrow> bool" where
  "alternating [] = True"
| "alternating [m] = False"
| "alternating (u # a # ms) =
     (role u = str ''user'' \<and> role a = str ''assistant'' \<and> alternating ms)"

text \<open>
  Two remote libraries to run the program with: one whose \<^verbatim>\<open>send_message\<close> raises,
  one that answers with the text it was sent.
\<close>

definition api_down :: remote_api where
  "api_down = \<lparr>model_ok = True, start_chat_ok = (\<lambda>h. True), send_message = (\<lambda>h c. Raises)\<rparr>"

definition api_echo :: remote_api where
  "api_echo =
     \<lparr>model_ok = True, start_chat_ok = (\<lambda>h. True),
      send_message = (\<lambda>h c. Returns (Some \<lparr>resp_text = Some c, prompt_feedback = False\<rparr>))\<rparr>"

section \<open>Properties\<close>

subsection \<open>Auxiliary facts\<close>

lemma fixed_nonempty: "internal_error \<noteq> []" "retry_message \<noteq> []" "safety_apology \<noteq> []"
  by (simp_all add: internal_error_def retry_message_def safety_apology_def str_def)

lemma role_literals:
  "str ''user'' \<noteq> str ''assistant''" "str ''assistant'' \<noteq> str ''user''"
  "str ''user'' \<noteq> str ''model''" "str ''model'' \<noteq> str ''user''"
  by (simp_all add: str_def)

lemma add_history_append: "add_history h ms = h @ add_history [] ms"
proof (induction ms arbitrary: h)
  case Nil
  show ?case by simp
next
  case (Cons m ms)
  show ?case
    using Cons.IH[of "h @ [x]" for x] Cons.IH[of "[x]" for x] Cons.IH[of h] by simp
qed

lemma dropWhile_all_iff: "(\<forall>x\<in>set (dropWhile P xs). P x) \<longleftrightarrow> (\<forall>x\<in>set xs. P x)"
proof
  assume a: "\<forall>x\<in>set (dropWhile P xs). P x"
  have "dropWhile P xs = []"
  proof (rule ccontr)
    assume n: "dropWhile P xs \<noteq> []"
    then have "\<not> P (hd (dropWhile P xs))" by (rule hd_dropWhile)
    moreover have "hd (dropWhile P xs) \<in> set (dropWhile P xs)" using n by simp
    ultimately show False using a by blast
  qed
  then show "\<forall>x\<in>set xs. P x" by simp
next
  assume "\<forall>x\<in>set xs. P x"
  then show "\<forall>x\<in>set (dropWhile P xs). P x" by (auto dest: set_dropWhileD)
qed

lemma strip_empty_iff: "strip s = [] \<longleftrightarrow> (\<forall>c\<in>set s. py_isspace c)"
  by (simp add: strip_def lstrip_def rstrip_def dropWhile_all_iff)

lemma reply_nonempty: "fst (reply_of_response r) \<noteq> []"
  by (auto simp: reply_of_response_def no_text_def fixed_nonempty split: option.splits)

lemma extract_reply_Raises: "extract_reply Raises = internal_error"
  by (simp add: extract_reply_def except_handler_def after_send_def)

lemma extract_reply_Returns: "extract_reply (Returns r) = fst (reply_of_response r)"
  by (simp add: extract_reply_def except_handler_def after_send_def)

text \<open>
  \<open>get_medibot_reply\<close> is the extractor applied to what \<open>send_message\<close> did, whenever
  the body gets as far as line 74.
\<close>

lemma get_medibot_reply_extract:
  "model_ok api \<Longrightarrow> start_chat_ok api (build ms lang att) \<Longrightarrow> ms \<noteq> [] \<Longrightarrow>
   fst (get_medibot_reply api ms lang att) =
     extract_reply (send_message api (build ms lang att) (content (last ms)))"
  by (simp add: get_medibot_reply_def try_body_def Let_def extract_reply_def except_handler_def
        split: sum.splits)

subsection \<open>The reply extractor\<close>

text \<open>
  Claim C3. The reply extractor is total, and the first matching case decides. Whatever the
  remote call did, the text shown is not empty. It is the fixed internal-error message when
  the call raised; the text of the response, verbatim, when that text is not empty (also
  when safety feedback is there too); the fixed safety apology when there is no text and
  safety feedback; the fixed retry message when there is neither, or no response at all.
  The exception of the call is a value of the body, \<open>Inl\<close>, that \<open>except_handler\<close> turns
  into a text: nothing is raised further.
\<close>

theorem extract_reply_total:
  "extract_reply outcome \<noteq> [] \<and>
   extract_reply Raises = internal_error \<and>
   extract_reply (Returns None) = retry_message \<and>
   extract_reply (Returns (Some \<lparr>resp_text = Some (c # cs), prompt_feedback = pf\<rparr>)) = c # cs \<and>
   extract_reply (Returns (Some \<lparr>resp_text = Some [], prompt_feedback = True\<rparr>)) = safety_apology \<and>
   extract_reply (Returns (Some \<lparr>resp_text = None, prompt_feedback = True\<rparr>)) = safety_apology \<and>
   extract_reply (Returns (Some \<lparr>resp_text = Some [], prompt_feedback = False\<rparr>)) = retry_message \<and>
   extract_reply (Returns (Some \<lparr>resp_text = None, prompt_feedback = False\<rparr>)) = retry_message"
proof -
  have "extract_reply outcome \<noteq> []"
    by (cases outcome)
      (simp_all add: extract_reply_Raises extract_reply_Returns fixed_nonempty reply_nonempty)
  then show ?thesis
    by (simp add: extract_reply_Raises extract_reply_Returns reply_of_response_def no_text_def)
qed

theorem extract_reply_total_witness:
  "extract_reply (Returns (Some \<lparr>resp_text = Some (str ''Rest, hydrate.''), prompt_feedback = True\<rparr>))
     = str ''Rest, hydrate.'' \<and>
   extract_reply (Returns (Some \<lparr>resp_text = Some (str ''Rest, hydrate.''), prompt_feedback = True\<rparr>))
     \<noteq> []"
  using extract_reply_total
    [of "Returns (Some \<lparr>resp_text = Some (str ''Rest, hydrate.''), prompt_feedback = True\<rparr>)"
        "of_char CHR ''R''" "str ''est, hydrate.''" True]
  by (simp add: str_def)

subsection \<open>The submit handler rejects blank input\<close>

text \<open>
  Claim C8. When the text typed is empty or holds white space only, the handler does
  nothing: the message list is returned as it was, so its length is unchanged, and the
  turn has no event, so no call to the remote library is made.
\<close>

theorem handle_turn_noop:
  "(\<forall>c\<in>set user_input. py_isspace c) \<Longrightarrow>
   handle_turn api submitted user_input attachment_b64 messages = (messages, [])"
  by (simp add: handle_turn_def strip_empty_iff)

theorem handle_turn_noop_witness:
  "list_all py_isspace (str ''  '') \<and>
   handle_turn \<lparr>model_ok = True, start_chat_ok = (\<lambda>h. True), send_message = (\<lambda>h c. Raises)\<rparr>
     True (str ''  '') None [] = ([], [])"
proof -
  have h: "\<forall>c\<in>set (str ''  ''). py_isspace c"
    by (simp add: str_def py_isspace_def)
  show ?thesis
    using h handle_turn_noop [OF h] by (simp add: list_all_iff)
qed

subsection \<open>\<open>get_medibot_reply\<close> on the empty list\<close>

text \<open>
  Claim C10. \<open>get_medibot_reply\<close> called with the empty message list does not raise and
  returns the fixed internal-error string. When the model and the chat could be created,
  the exception of the body is the \<open>IndexError\<close> of reading the last message, which the
  handler of lines 84 to 86 catches.
\<close>

theorem get_medibot_reply_empty:
  "fst (get_medibot_reply api [] language attachment_b64) = internal_error \<and>
   (model_ok api \<and> start_chat_ok api (build [] language attachment_b64) \<longrightarrow>
      fst (try_body api [] language attachment_b64) = Inl IndexError)"
  by (simp add: get_medibot_reply_def try_body_def Let_def except_handler_def)

theorem get_medibot_reply_empty_witness:
  "model_ok \<lparr>model_ok = True, start_chat_ok = (\<lambda>h. True), send_message = (\<lambda>h c. Raises)\<rparr> \<and>
   start_chat_ok \<lparr>model_ok = True, start_chat_ok = (\<lambda>h. True), send_message = (\<lambda>h c. Raises)\<rparr>
     (build [] (str ''English'') None) \<and>
   fst (get_medibot_reply
         \<lparr>model_ok = True, start_chat_ok = (\<lambda>h. True), send_message = (\<lambda>h c. Raises)\<rparr>
         [] (str ''English'') None) = internal_error \<and>
   fst (try_body
         \<lparr>model_ok = True, start_chat_ok = (\<lambda>h. True), send_message = (\<lambda>h c. Raises)\<rparr>
         [] (str ''English'') None) = Inl IndexError"
  using get_medibot_reply_empty
    [of "\<lparr>model_ok = True, start_chat_ok = (\<lambda>h. True), send_message = (\<lambda>h c. Raises)\<rparr>"
        "str ''English''" None]
  by simp

subsection \<open>Facts about the payload\<close>

lemma build_eq:
  "build ms lang att = add_attachment att (priming_pair lang @ add_history [] ms)"
  unfolding build_def by (subst add_history_append) (rule refl)

lemma add_history_known:
  "list_all known_role ms \<Longrightarrow> add_history [] ms = map spec_turn ms"
proof (induction ms)
  case Nil
  show ?case by simp
next
  case (Cons m ms)
  then have "add_history [] ms = map spec_turn ms" by simp
  moreover have "known_role m" using Cons.prems by simp
  ultimately show ?case
    using add_history_append[of "[x]" ms for x]
    by (auto simp: known_role_def spec_turn_def role_literals)
qed

lemma add_history_no_inline: "\<not> list_ex carries_inline (add_history [] ms)"
proof (induction ms)
  case Nil
  show ?case by simp
next
  case (Cons m ms)
  then show ?case
    using add_history_append[of "[x]" ms for x]
    by (simp add: carries_inline_def)
qed

lemma priming_no_inline: "\<not> list_ex carries_inline (priming_pair lang)"
  by (simp add: priming_pair_def carries_inline_def)

lemma build_None_no_inline: "\<not> list_ex carries_inline (build ms lang None)"
  by (simp add: build_eq add_history_no_inline priming_no_inline)

lemma add_attachment_length: "length (add_attachment att h) = length h"
  by (cases att) auto

lemma add_attachment_take:
  "n < length h \<Longrightarrow> take n (add_attachment att h) = take n h"
  by (cases att) (auto simp: butlast_conv_take)

lemma add_attachment_Some:
  "b64 \<noteq> [] \<Longrightarrow> h \<noteq> [] \<Longrightarrow>
   add_attachment (Some b64) h = butlast h @ [(last h)\<lparr>parts := parts (last h) @ [inline_part b64]\<rparr>]"
  by simp

lemma build_nonempty: "build ms lang att \<noteq> []"
  using add_attachment_length[of att "priming_pair lang @ add_history [] ms"]
  by (auto simp: build_eq priming_pair_def simp del: add_attachment.simps)

lemma list_ex_butlast: "\<not> list_ex P xs \<Longrightarrow> \<not> list_ex P (butlast xs)"
  by (auto simp: list_ex_iff dest: in_set_butlastD)

lemma add_attachment_roles: "map turn_role (add_attachment att h) = map turn_role h"
proof (cases att)
  case None
  then show ?thesis by simp
next
  case (Some b)
  show ?thesis
  proof (cases "b \<noteq> [] \<and> h \<noteq> []")
    case True
    then have "map turn_role h = map turn_role (butlast h @ [last h])" by simp
    then show ?thesis using True Some by (simp del: append_butlast_last_id)
  next
    case False
    then show ?thesis using Some by auto
  qed
qed

lemma add_attachment_primary:
  assumes "\<forall>t\<in>set h. parts t \<noteq> []"
  shows "map (\<lambda>t. hd (parts t)) (add_attachment att h) = map (\<lambda>t. hd (parts t)) h"
proof (cases att)
  case None
  then show ?thesis by simp
next
  case (Some b)
  show ?thesis
  proof (cases "b \<noteq> [] \<and> h \<noteq> []")
    case True
    then have "last h \<in> set h" by simp
    then have ne: "parts (last h) \<noteq> []" using assms by blast
    have "map (\<lambda>t. hd (parts t)) h = map (\<lambda>t. hd (parts t)) (butlast h @ [last h])"
      using True by simp
    then show ?thesis using True Some ne by (simp del: append_butlast_last_id)
  next
    case False
    then show ?thesis using Some by auto
  qed
qed

subsection \<open>Facts about the handler\<close>

lemma handle_turn_accepted:
  "submitted \<Longrightarrow> strip user_input \<noteq> [] \<Longrightarrow>
   handle_turn api submitted user_input att ms =
     (ms @ [user_msg user_input,
            bot_msg (fst (get_medibot_reply api (ms @ [user_msg user_input]) (str ''English'') att))],
      snd (get_medibot_reply api (ms @ [user_msg user_input]) (str ''English'') att))"
  by (simp add: handle_turn_def Let_def user_msg_def bot_msg_def)

lemma handle_turn_rejected:
  "\<not> (submitted \<and> strip user_input \<noteq> []) \<Longrightarrow>
   handle_turn api submitted user_input att ms = (ms, [])"
  by (auto simp: handle_turn_def)

lemma alternating_append:
  "alternating ms \<Longrightarrow> alternating (ms @ [user_msg u, bot_msg r])"
  by (induction ms rule: alternating.induct) (simp_all add: user_msg_def bot_msg_def)

lemma alternating_handle_turn:
  "alternating ms \<Longrightarrow> alternating (fst (handle_turn api submitted user_input att ms))"
  by (cases "submitted \<and> strip user_input \<noteq> []")
    (simp_all add: handle_turn_accepted handle_turn_rejected alternating_append)

lemma alternating_session: "alternating ms \<Longrightarrow> alternating (session ms subs)"
  by (induction subs arbitrary: ms) (simp_all add: alternating_handle_turn)

lemma alternating_nth:
  "alternating ms \<Longrightarrow>
   even (length ms) \<and>
   (\<forall>i<length ms. role (ms ! i) = (if even i then str ''user'' else str ''assistant''))"
proof (induction ms rule: alternating.induct)
  case 1
  show ?case by simp
next
  case (2 m)
  then show ?case by simp
next
  case (3 u a ms)
  then have ih: "even (length ms)"
    "\<And>i. i < length ms \<Longrightarrow> role (ms ! i) = (if even i then str ''user'' else str ''assistant'')"
    by simp_all
  have "role ((u # a # ms) ! i) = (if even i then str ''user'' else str ''assistant'')"
    if "i < length (u # a # ms)" for i
  proof (cases i)
    case 0
    then show ?thesis using "3.prems" by simp
  next
    case (Suc j)
    show ?thesis
    proof (cases j)
      case 0
      then show ?thesis using Suc "3.prems" by simp
    next
      case (Suc k)
      then have "k < length ms" using that \<open>i = Suc j\<close> by simp
      then show ?thesis using ih(2)[of k] Suc \<open>i = Suc j\<close> by simp
    qed
  qed
  then show ?case using ih(1) by simp
qed

lemma try_body_fails:
  assumes "ms \<noteq> []"
    and "\<not> model_ok api \<or> \<not> start_chat_ok api (build ms lang att) \<or>
         send_message api (build ms lang att) (content (last ms)) = Raises"
  shows "\<exists>e. fst (try_body api ms lang att) = Inl e"
  using assms by (auto simp: try_body_def Let_def after_send_def)

lemma except_handler_Inl:
  "fst r = Inl e \<Longrightarrow> except_handler r = (internal_error, snd r @ [St_error e])"
  by (simp add: except_handler_def)

lemma str_user_strip: "strip (str '' hi'') = str ''hi''"
  by (simp add: strip_def lstrip_def rstrip_def str_def py_isspace_def)

lemma hi_not_blank: "\<not> list_all py_isspace (str ''hi'')"
  by (simp add: str_def py_isspace_def)

lemma hi_nonempty: "str ''hi'' \<noteq> []"
  by (simp add: str_def)

lemma strip_hi: "strip (str ''hi'') = str ''hi''"
  by (simp add: strip_def lstrip_def rstrip_def str_def py_isspace_def)

subsection \<open>The priming pair\<close>

lemma rendered_text:
  "SYSTEM_PROMPT_format language =
     str ''You are MediBot, a soft-spoken, empathetic medical advisory assistant.'' @ [10] @
     str ''- Speak in a caring, calm tone.'' @ [10] @
     str ''- Your primary role is to provide general, educational information about symptoms and conditions.'' @ [10] @
     str ''- DO NOT provide any diagnoses, prescriptions, or definitive medical advice. This is crucial.'' @ [10] @
     str ''- If the user asks an unrelated question, reply gently: '' @ [39] @ [0x26A0, 0xFE0F] @
     str '' I can only help with medical-related queries.'' @ [39] @ [10] @
     str ''- For any medical query, always provide information on self-care measures and strongly recommend consulting a healthcare professional.'' @ [10] @
     str ''- Use the requested language: '' @ language @ str ''.'' @ [10] @
     str ''- End every response with the disclaimer: '' @ [39] @ [0x26A0, 0xFE0F] @
     str '' This is not a substitute for professional medical consultation.'' @ [39] @ [10, 10]"
  by (simp add: SYSTEM_PROMPT_format_def SYSTEM_PROMPT_before_def SYSTEM_PROMPT_after_def
        warning_sign_def)

lemma add_history_nonempty: "list_ex known_role ms \<Longrightarrow> add_history [] ms \<noteq> []"
proof (induction ms)
  case Nil
  then show ?case by simp
next
  case (Cons m ms)
  show ?case
  proof (cases "known_role m")
    case True
    then show ?thesis
      using add_history_append[of "[x]" ms for x] by (auto simp: known_role_def)
  next
    case False
    then show ?thesis using Cons by (simp add: known_role_def)
  qed
qed

lemma build_first_turn:
  "build messages language attachment_b64 ! 0 =
     \<lparr>turn_role = str ''user'', parts = [Text (SYSTEM_PROMPT_format language)]\<rparr>"
proof -
  let ?h = "priming_pair language @ add_history [] messages"
  have "1 < length ?h" by (simp add: priming_pair_def)
  then have "take 1 (add_attachment attachment_b64 ?h) = take 1 ?h"
    by (rule add_attachment_take)
  then have "take 1 (build messages language attachment_b64) =
      [\<lparr>turn_role = str ''user'', parts = [Text (SYSTEM_PROMPT_format language)]\<rparr>]"
    by (simp add: build_eq priming_pair_def)
  then show ?thesis
    by (cases "build messages language attachment_b64") simp_all
qed

lemma build_first_two:
  assumes "\<not> truthy attachment_b64 \<or> list_ex known_role messages"
  shows "take 2 (build messages language attachment_b64) = priming_pair language"
proof -
  let ?h = "priming_pair language @ add_history [] messages"
  show ?thesis
  proof (cases "truthy attachment_b64")
    case False
    then have "add_attachment attachment_b64 ?h = ?h"
      by (cases attachment_b64) simp_all
    then show ?thesis by (simp add: build_eq priming_pair_def)
  next
    case True
    then have "add_history [] messages \<noteq> []" using assms by (simp add: add_history_nonempty)
    then have "2 < length ?h" by (simp add: priming_pair_def)
    then have "take 2 (add_attachment attachment_b64 ?h) = take 2 ?h"
      by (rule add_attachment_take)
    then show ?thesis by (simp add: build_eq priming_pair_def)
  qed
qed

text \<open>
  Claim C5, as the program has it. For every language, every message list and every
  attachment the payload has at least two turns, and its first turn is a \<^verbatim>\<open>user\<close> turn
  whose only part is the persona directive rendered for the language: the text of the
  template with the language in the place of \<^verbatim>\<open>{language}\<close>. When no attachment is present,
  or the message list has a message of role \<^verbatim>\<open>user\<close> or \<^verbatim>\<open>assistant\<close>, the first
  two turns are the priming pair: that turn and a \<^verbatim>\<open>model\<close> turn whose only part is the
  fixed acknowledgment.
\<close>

theorem build_priming_pair:
  "2 \<le> length (build messages language attachment_b64) \<and>
   build messages language attachment_b64 ! 0 =
     \<lparr>turn_role = str ''user'',
      parts = [Text
        (str ''You are MediBot, a soft-spoken, empathetic medical advisory assistant.'' @ [10] @
         str ''- Speak in a caring, calm tone.'' @ [10] @
         str ''- Your primary role is to provide general, educational information about symptoms and conditions.'' @ [10] @
         str ''- DO NOT provide any diagnoses, prescriptions, or definitive medical advice. This is crucial.'' @ [10] @
         str ''- If the user asks an unrelated question, reply gently: '' @ [39] @ [0x26A0, 0xFE0F] @
         str '' I can only help with medical-related queries.'' @ [39] @ [10] @
         str ''- For any medical query, always provide information on self-care measures and strongly recommend consulting a healthcare professional.'' @ [10] @
         str ''- Use the requested language: '' @ language @ str ''.'' @ [10] @
         str ''- End every response with the disclaimer: '' @ [39] @ [0x26A0, 0xFE0F] @
         str '' This is not a substitute for professional medical consultation.'' @ [39] @ [10, 10])]\<rparr> \<and>
   (\<not> truthy attachment_b64 \<or> list_ex known_role messages \<longrightarrow>
      take 2 (build messages language attachment_b64) =
        [build messages language attachment_b64 ! 0,
         \<lparr>turn_role = str ''model'',
          parts = [Text (str ''Understood. I will follow all the provided instructions.'')]\<rparr>])"
proof -
  have len: "2 \<le> length (build messages language attachment_b64)"
    by (simp add: build_eq add_attachment_length priming_pair_def)
  have first: "build messages language attachment_b64 ! 0 =
     \<lparr>turn_role = str ''user'', parts = [Text (SYSTEM_PROMPT_format language)]\<rparr>"
    by (rule build_first_turn)
  have two: "take 2 (build messages language attachment_b64) =
        [build messages language attachment_b64 ! 0,
         \<lparr>turn_role = str ''model'',
          parts = [Text (str ''Understood. I will follow all the provided instructions.'')]\<rparr>]"
    if "\<not> truthy attachment_b64 \<or> list_ex known_role messages"
    using build_first_two[OF that, of language] first
    by (simp add: priming_pair_def acknowledgment_def)
  show ?thesis
    using len two by (simp only: first rendered_text[symmetric]) blast
qed

theorem build_priming_pair_witness:
  "list_ex known_role [\<lparr>role = str ''user'', content = str ''hi''\<rparr>] \<and>
   take 2 (build [\<lparr>role = str ''user'', content = str ''hi''\<rparr>] (str ''Hindi'') (Some (str ''QUJD''))) =
     [\<lparr>turn_role = str ''user'',
       parts = [Text
        (str ''You are MediBot, a soft-spoken, empathetic medical advisory assistant.'' @ [10] @
         str ''- Speak in a caring, calm tone.'' @ [10] @
         str ''- Your primary role is to provide general, educational information about symptoms and conditions.'' @ [10] @
         str ''- DO NOT provide any diagnoses, prescriptions, or definitive medical advice. This is crucial.'' @ [10] @
         str ''- If the user asks an unrelated question, reply gently: '' @ [39] @ [0x26A0, 0xFE0F] @
         str '' I can only help with medical-related queries.'' @ [39] @ [10] @
         str ''- For any medical query, always provide information on self-care measures and strongly recommend consulting a healthcare professional.'' @ [10] @
         str ''- Use the requested language: Hindi.'' @ [10] @
         str ''- End every response with the disclaimer: '' @ [39] @ [0x26A0, 0xFE0F] @
         str '' This is not a substitute for professional medical consultation.'' @ [39] @ [10, 10])]\<rparr>,
      \<lparr>turn_role = str ''model'',
       parts = [Text (str ''Understood. I will follow all the provided instructions.'')]\<rparr>]"
proof -
  have h: "list_ex known_role [\<lparr>role = str ''user'', content = str ''hi''\<rparr>]"
    by (simp add: known_role_def)
  have l: "str ''- Use the requested language: '' @ str ''Hindi'' @ str ''.'' @ rest =
      str ''- Use the requested language: Hindi.'' @ rest" for rest
    by (simp add: str_def)
  show ?thesis
    using h build_priming_pair
      [of "[\<lparr>role = str ''user'', content = str ''hi''\<rparr>]" "str ''Hindi''" "Some (str ''QUJD'')"]
    by (simp add: l)
qed

text \<open>
  The first two turns are not the priming pair for every input: with the empty message list
  and an attachment the second turn holds the inline data after the acknowledgment.
\<close>

theorem priming_pair_with_attachment_counterexample:
  "build [] (str ''English'') (Some (str ''QUJD'')) ! 1 =
     \<lparr>turn_role = str ''model'',
      parts = [Text (str ''Understood. I will follow all the provided instructions.''),
               Inline_data (str ''image/png'') (str ''QUJD'')]\<rparr> \<and>
   build [] (str ''English'') (Some (str ''QUJD'')) ! 1 \<noteq>
     \<lparr>turn_role = str ''model'',
      parts = [Text (str ''Understood. I will follow all the provided instructions.'')]\<rparr>"
proof -
  have "str ''QUJD'' \<noteq> []" by (simp add: str_def)
  then show ?thesis
    by (simp add: build_def priming_pair_def inline_part_def acknowledgment_def)
qed

subsection \<open>The attachment\<close>

text \<open>
  Claim C6. When an attachment is present (a non-empty string), the payload is the payload
  built without it, with one inline data part of MIME type \<^verbatim>\<open>image/png\<close> holding the
  given base64 text appended to the parts of the last turn. No turn of the payload without
  attachment carries inline data, so no turn before the last does, and the last turn has
  exactly this one.
\<close>

theorem attachment_on_last_turn_only:
  assumes "b64 \<noteq> []"
  shows "build messages language (Some b64) =
           butlast (build messages language None) @
           [(last (build messages language None))
              \<lparr>parts := parts (last (build messages language None)) @
                         [Inline_data (str ''image/png'') b64]\<rparr>] \<and>
         \<not> list_ex carries_inline (build messages language None) \<and>
         \<not> list_ex carries_inline (butlast (build messages language (Some b64))) \<and>
         filter is_inline (parts (last (build messages language (Some b64)))) =
           [Inline_data (str ''image/png'') b64]"
proof -
  let ?base = "build messages language None"
  have ne: "?base \<noteq> []" by (rule build_nonempty)
  have base: "build messages language (Some b64) = add_attachment (Some b64) ?base"
    by (simp add: build_def)
  have eq: "build messages language (Some b64) =
      butlast ?base @ [(last ?base)\<lparr>parts := parts (last ?base) @ [inline_part b64]\<rparr>]"
    unfolding base using assms ne by (rule add_attachment_Some)
  have clean: "\<not> list_ex carries_inline ?base" by (rule build_None_no_inline)
  have "last ?base \<in> set ?base" using ne by simp
  then have "\<not> carries_inline (last ?base)" using clean by (auto simp: list_ex_iff)
  then have fl: "filter is_inline (parts (last ?base)) = []"
    by (auto simp: carries_inline_def list_ex_iff filter_empty_conv)
  have "\<not> list_ex carries_inline (butlast (build messages language (Some b64)))"
    using clean by (simp add: eq list_ex_butlast)
  moreover have "filter is_inline (parts (last (build messages language (Some b64)))) =
      [Inline_data (str ''image/png'') b64]"
    using fl by (simp add: eq inline_part_def)
  ultimately show ?thesis using eq clean by (simp add: inline_part_def)
qed

theorem attachment_on_last_turn_only_witness:
  "str ''QUJD'' \<noteq> [] \<and>
   build [\<lparr>role = str ''user'', content = str ''hi''\<rparr>] (str ''English'') (Some (str ''QUJD'')) =
     priming_pair (str ''English'') @
     [\<lparr>turn_role = str ''user'', parts = [Text (str ''hi''), Inline_data (str ''image/png'') (str ''QUJD'')]\<rparr>]"
proof -
  have h: "str ''QUJD'' \<noteq> []" by (simp add: str_def)
  have b: "build [\<lparr>role = str ''user'', content = str ''hi''\<rparr>] (str ''English'') None =
     priming_pair (str ''English'') @ [\<lparr>turn_role = str ''user'', parts = [Text (str ''hi'')]\<rparr>]"
    by (simp add: build_def)
  show ?thesis
    using h attachment_on_last_turn_only [OF h, of "[\<lparr>role = str ''user'', content = str ''hi''\<rparr>]" "str ''English''"]
    by (simp add: b butlast_append)
qed

subsection \<open>One turn per message\<close>

lemma try_body_events:
  "model_ok api \<Longrightarrow> start_chat_ok api (build ms lang att) \<Longrightarrow> ms \<noteq> [] \<Longrightarrow>
   take 2 (snd (try_body api ms lang att)) =
     [Start_chat (build ms lang att), Send_message (build ms lang att) (content (last ms))]"
  by (simp add: try_body_def Let_def)

text \<open>
  Claim C7, as the program has it. For a transcript whose messages have the role
  \<^verbatim>\<open>user\<close> or \<^verbatim>\<open>assistant\<close>, the history built has two turns more than the
  transcript has messages, and after the first two there is one turn per message, in order:
  its role is \<^verbatim>\<open>user\<close> for a user message and \<^verbatim>\<open>model\<close> for an assistant message,
  its first part is the content of the message; without attachment the turns are exactly
  those of the specification. When the model and the chat can be created and the transcript
  is not empty, lines 69 to 74 hand this history to \<^verbatim>\<open>start_chat\<close> and then the content
  of the last message to \<^verbatim>\<open>send_message\<close>: the content that the last turn of the history
  already carries.
\<close>

theorem payload_follows_transcript:
  assumes "list_all known_role messages"
  shows "length (build messages language attachment_b64) = 2 + length messages \<and>
         map turn_role (drop 2 (build messages language attachment_b64)) =
           map (\<lambda>m. if role m = str ''user'' then str ''user'' else str ''model'') messages \<and>
         map (\<lambda>t. hd (parts t)) (drop 2 (build messages language attachment_b64)) =
           map (\<lambda>m. Text (content m)) messages \<and>
         drop 2 (build messages language None) = map spec_turn messages \<and>
         (model_ok api \<and> start_chat_ok api (build messages language attachment_b64) \<and>
          messages \<noteq> [] \<longrightarrow>
            take 2 (snd (try_body api messages language attachment_b64)) =
              [Start_chat (build messages language attachment_b64),
               Send_message (build messages language attachment_b64) (content (last messages))] \<and>
            hd (parts (last (build messages language attachment_b64))) =
              Text (content (last messages)))"
proof -
  let ?h = "priming_pair language @ map spec_turn messages"
  let ?b = "build messages language attachment_b64"
  have b: "build messages language att = add_attachment att ?h" for att
    using assms by (simp add: build_eq add_history_known)
  have len: "length ?b = 2 + length messages"
    by (simp add: b add_attachment_length priming_pair_def)
  have "map turn_role ?b = map turn_role ?h"
    by (simp only: b add_attachment_roles)
  then have "drop 2 (map turn_role ?b) = drop 2 (map turn_role ?h)"
    by simp
  then have roles: "map turn_role (drop 2 ?b) =
      map (\<lambda>m. if role m = str ''user'' then str ''user'' else str ''model'') messages"
    by (simp add: drop_map priming_pair_def spec_turn_def comp_def)
  have "\<forall>t\<in>set ?h. parts t \<noteq> []" by (auto simp: priming_pair_def spec_turn_def)
  then have "map (\<lambda>t. hd (parts t)) ?b = map (\<lambda>t. hd (parts t)) ?h"
    unfolding b by (rule add_attachment_primary)
  then have "drop 2 (map (\<lambda>t. hd (parts t)) ?b) = drop 2 (map (\<lambda>t. hd (parts t)) ?h)"
    by simp
  then have prim: "map (\<lambda>t. hd (parts t)) (drop 2 ?b) = map (\<lambda>m. Text (content m)) messages"
    by (simp add: drop_map priming_pair_def spec_turn_def comp_def)
  have plain: "drop 2 (build messages language None) = map spec_turn messages"
    by (simp add: b priming_pair_def)
  have lastp: "hd (parts (last ?b)) = Text (content (last messages))" if ne: "messages \<noteq> []"
  proof -
    have d: "drop 2 ?b \<noteq> []" using len ne by simp
    then have "last ?b = last (drop 2 ?b)" by simp
    then have "hd (parts (last ?b)) = last (map (\<lambda>t. hd (parts t)) (drop 2 ?b))"
      using d by (simp add: last_map)
    also have "\<dots> = Text (content (last messages))"
      unfolding prim using ne by (simp add: last_map)
    finally show ?thesis .
  qed
  have ev: "take 2 (snd (try_body api messages language attachment_b64)) =
      [Start_chat ?b, Send_message ?b (content (last messages))]"
    if "model_ok api" "start_chat_ok api ?b" "messages \<noteq> []"
    using that by (rule try_body_events)
  show ?thesis
    using len roles prim plain lastp ev by blast
qed

theorem payload_follows_transcript_witness:
  "list_all known_role
     [\<lparr>role = str ''user'', content = str ''hi''\<rparr>, \<lparr>role = str ''assistant'', content = str ''ok''\<rparr>,
      \<lparr>role = str ''user'', content = str ''why''\<rparr>] \<and>
   drop 2 (build [\<lparr>role = str ''user'', content = str ''hi''\<rparr>,
                  \<lparr>role = str ''assistant'', content = str ''ok''\<rparr>,
                  \<lparr>role = str ''user'', content = str ''why''\<rparr>] (str ''English'') None) =
     [\<lparr>turn_role = str ''user'', parts = [Text (str ''hi'')]\<rparr>,
      \<lparr>turn_role = str ''model'', parts = [Text (str ''ok'')]\<rparr>,
      \<lparr>turn_role = str ''user'', parts = [Text (str ''why'')]\<rparr>] \<and>
   take 2 (snd (try_body api_echo
            [\<lparr>role = str ''user'', content = str ''hi''\<rparr>,
             \<lparr>role = str ''assistant'', content = str ''ok''\<rparr>,
             \<lparr>role = str ''user'', content = str ''why''\<rparr>] (str ''English'') None)) =
     [Start_chat
        (priming_pair (str ''English'') @
         [\<lparr>turn_role = str ''user'', parts = [Text (str ''hi'')]\<rparr>,
          \<lparr>turn_role = str ''model'', parts = [Text (str ''ok'')]\<rparr>,
          \<lparr>turn_role = str ''user'', parts = [Text (str ''why'')]\<rparr>]),
      Send_message
        (priming_pair (str ''English'') @
         [\<lparr>turn_role = str ''user'', parts = [Text (str ''hi'')]\<rparr>,
          \<lparr>turn_role = str ''model'', parts = [Text (str ''ok'')]\<rparr>,
          \<lparr>turn_role = str ''user'', parts = [Text (str ''why'')]\<rparr>])
        (str ''why'')]"
proof -
  let ?ms = "[\<lparr>role = str ''user'', content = str ''hi''\<rparr>,
              \<lparr>role = str ''assistant'', content = str ''ok''\<rparr>,
              \<lparr>role = str ''user'', content = str ''why''\<rparr>]"
  have h: "list_all known_role ?ms"
    by (simp add: known_role_def)
  have b: "build ?ms (str ''English'') None =
      priming_pair (str ''English'') @
         [\<lparr>turn_role = str ''user'', parts = [Text (str ''hi'')]\<rparr>,
          \<lparr>turn_role = str ''model'', parts = [Text (str ''ok'')]\<rparr>,
          \<lparr>turn_role = str ''user'', parts = [Text (str ''why'')]\<rparr>]"
    by (simp add: build_def role_literals)
  have a: "model_ok api_echo" "start_chat_ok api_echo x" for x
    by (simp_all add: api_echo_def)
  show ?thesis
    using h payload_follows_transcript [OF h, of "str ''English''" None api_echo] a
    by (simp add: b spec_turn_def role_literals)
qed

text \<open>
  What the remote call gets has not exactly one turn per message: for a transcript of one
  message, its content is in the last turn of the history handed to \<^verbatim>\<open>start_chat\<close> and
  is the message handed to \<^verbatim>\<open>send_message\<close> as well.
\<close>

theorem last_message_sent_twice_counterexample:
  "snd (try_body api_echo [\<lparr>role = str ''user'', content = str ''hi''\<rparr>] (str ''English'') None) =
     [Start_chat
        (priming_pair (str ''English'') @
         [\<lparr>turn_role = str ''user'', parts = [Text (str ''hi'')]\<rparr>]),
      Send_message
        (priming_pair (str ''English'') @
         [\<lparr>turn_role = str ''user'', parts = [Text (str ''hi'')]\<rparr>])
        (str ''hi'')]"
proof -
  have b: "build [\<lparr>role = str ''user'', content = str ''hi''\<rparr>] (str ''English'') None =
      priming_pair (str ''English'') @ [\<lparr>turn_role = str ''user'', parts = [Text (str ''hi'')]\<rparr>]"
    by (simp add: build_def)
  show ?thesis
    by (simp add: try_body_def Let_def b api_echo_def after_send_def reply_of_response_def
          hi_nonempty)
qed

subsection \<open>An accepted turn\<close>

text \<open>
  Claim C1, as the program has it. For a submitted text that is not blank, the handler
  appends exactly two messages: a user message whose content is the text with leading and
  trailing white space removed, then one assistant message with the reply. The handler keeps
  the alternation of a list, and the list after any sequence of submissions from the empty
  list is alternating: even length, \<^verbatim>\<open>user\<close> at the even positions and
  \<^verbatim>\<open>assistant\<close> at the odd ones.
\<close>

theorem handle_turn_appends_pair:
  assumes "submitted" and "\<not> list_all py_isspace user_input"
  shows "fst (handle_turn api submitted user_input attachment_b64 messages) =
           messages @
           [\<lparr>role = str ''user'', content = strip user_input\<rparr>,
            \<lparr>role = str ''assistant'',
             content = fst (get_medibot_reply api
                (messages @ [\<lparr>role = str ''user'', content = strip user_input\<rparr>])
                (str ''English'') attachment_b64)\<rparr>] \<and>
         length (fst (handle_turn api submitted user_input attachment_b64 messages)) =
           length messages + 2 \<and>
         (alternating messages \<longrightarrow>
            alternating (fst (handle_turn api submitted user_input attachment_b64 messages))) \<and>
         alternating (session [] subs) \<and>
         even (length (session [] subs)) \<and>
         (\<forall>i<length (session [] subs).
            role (session [] subs ! i) = (if even i then str ''user'' else str ''assistant''))"
proof -
  have ne: "strip user_input \<noteq> []"
    using assms(2) by (simp add: strip_empty_iff list_all_iff)
  have eq: "fst (handle_turn api submitted user_input attachment_b64 messages) =
           messages @
           [\<lparr>role = str ''user'', content = strip user_input\<rparr>,
            \<lparr>role = str ''assistant'',
             content = fst (get_medibot_reply api
                (messages @ [\<lparr>role = str ''user'', content = strip user_input\<rparr>])
                (str ''English'') attachment_b64)\<rparr>]"
    using assms(1) ne by (simp add: handle_turn_accepted user_msg_def bot_msg_def)
  have alt: "alternating (session [] subs)"
    by (rule alternating_session) simp
  have pres: "alternating messages \<longrightarrow>
      alternating (fst (handle_turn api submitted user_input attachment_b64 messages))"
    by (simp add: alternating_handle_turn)
  have len: "length (fst (handle_turn api submitted user_input attachment_b64 messages)) =
      length messages + 2"
    by (simp only: eq) simp
  show ?thesis
    using eq len pres alt alternating_nth[OF alt] by blast
qed

theorem handle_turn_appends_pair_witness:
  "\<not> list_all py_isspace (str ''hi'') \<and>
   fst (handle_turn api_echo True (str ''hi'') None []) =
     [\<lparr>role = str ''user'', content = str ''hi''\<rparr>,
      \<lparr>role = str ''assistant'', content = str ''hi''\<rparr>] \<and>
   alternating (fst (handle_turn api_echo True (str ''hi'') None []))"
proof -
  have g: "fst (get_medibot_reply api_echo [\<lparr>role = str ''user'', content = str ''hi''\<rparr>]
             (str ''English'') None) = str ''hi''"
    by (simp add: get_medibot_reply_def try_body_def api_echo_def Let_def after_send_def
          except_handler_def reply_of_response_def) (simp add: str_def)
  show ?thesis
    using hi_not_blank handle_turn_appends_pair [OF TrueI hi_not_blank, of api_echo None "[]" "[]"]
    by (simp add: strip_hi g)
qed

text \<open>
  The user message does not hold the text as submitted: for the text \<^verbatim>\<open>" hi"\<close> its
  content is \<^verbatim>\<open>"hi"\<close>.
\<close>

theorem handle_turn_submitted_text_counterexample:
  "fst (handle_turn api_down True (str '' hi'') None []) =
     [\<lparr>role = str ''user'', content = str ''hi''\<rparr>,
      \<lparr>role = str ''assistant'', content = internal_error\<rparr>] \<and>
   str ''hi'' \<noteq> str '' hi''"
proof -
  have g: "fst (get_medibot_reply api_down [\<lparr>role = str ''user'', content = str ''hi''\<rparr>]
             (str ''English'') None) = internal_error"
    by (simp add: get_medibot_reply_def try_body_def api_down_def Let_def after_send_def
          except_handler_def)
  have "str ''hi'' \<noteq> str '' hi''" by (simp add: str_def)
  then show ?thesis
    by (simp add: handle_turn_def Let_def str_user_strip hi_nonempty g)
qed

subsection \<open>A failing remote call\<close>

text \<open>
  Claim C4. When, in an accepted turn, the model cannot be created, the chat cannot be
  started or \<^verbatim>\<open>send_message\<close> raises, the body of the \<^verbatim>\<open>try\<close> ends in an
  exception that lines 84 to 86 catch: the event \<^verbatim>\<open>st.error\<close> is the last of the
  turn, the assistant message appended has the fixed internal-error string as content and
  the list is two messages longer.
\<close>

theorem remote_failure_still_appends:
  assumes "submitted" and "\<not> list_all py_isspace user_input"
    and "\<not> model_ok api \<or>
         \<not> start_chat_ok api
             (build (messages @ [\<lparr>role = str ''user'', content = strip user_input\<rparr>])
                (str ''English'') attachment_b64) \<or>
         send_message api
             (build (messages @ [\<lparr>role = str ''user'', content = strip user_input\<rparr>])
                (str ''English'') attachment_b64)
             (strip user_input) = Raises"
  shows "fst (handle_turn api submitted user_input attachment_b64 messages) =
           messages @
           [\<lparr>role = str ''user'', content = strip user_input\<rparr>,
            \<lparr>role = str ''assistant'', content = internal_error\<rparr>] \<and>
         length (fst (handle_turn api submitted user_input attachment_b64 messages)) =
           length messages + 2 \<and>
         (\<exists>e. fst (try_body api
                 (messages @ [\<lparr>role = str ''user'', content = strip user_input\<rparr>])
                 (str ''English'') attachment_b64) = Inl e \<and>
              last (snd (handle_turn api submitted user_input attachment_b64 messages)) =
                St_error e)"
proof -
  let ?ms = "messages @ [user_msg user_input]"
  have ne: "strip user_input \<noteq> []"
    using assms(2) by (simp add: strip_empty_iff list_all_iff)
  have "?ms \<noteq> []" by simp
  moreover have "\<not> model_ok api \<or> \<not> start_chat_ok api (build ?ms (str ''English'') attachment_b64) \<or>
         send_message api (build ?ms (str ''English'') attachment_b64) (content (last ?ms)) = Raises"
    using assms(3) by (simp add: user_msg_def)
  ultimately obtain e where e: "fst (try_body api ?ms (str ''English'') attachment_b64) = Inl e"
    using try_body_fails by blast
  then have g: "get_medibot_reply api ?ms (str ''English'') attachment_b64 =
      (internal_error, snd (try_body api ?ms (str ''English'') attachment_b64) @ [St_error e])"
    unfolding get_medibot_reply_def by (rule except_handler_Inl)
  have "handle_turn api submitted user_input attachment_b64 messages =
      (messages @ [user_msg user_input, bot_msg internal_error],
       snd (try_body api ?ms (str ''English'') attachment_b64) @ [St_error e])"
    using assms(1) ne by (simp add: handle_turn_accepted g)
  then show ?thesis using e by (auto simp: user_msg_def bot_msg_def)
qed

theorem remote_failure_still_appends_witness:
  "\<not> list_all py_isspace (str ''hi'') \<and>
   send_message api_down
     (build [\<lparr>role = str ''user'', content = strip (str ''hi'')\<rparr>] (str ''English'') None)
     (strip (str ''hi'')) = Raises \<and>
   fst (handle_turn api_down True (str ''hi'') None []) =
     [\<lparr>role = str ''user'', content = str ''hi''\<rparr>,
      \<lparr>role = str ''assistant'', content = internal_error\<rparr>]"
proof -
  have f: "\<not> model_ok api_down \<or>
         \<not> start_chat_ok api_down
             (build ([] @ [\<lparr>role = str ''user'', content = strip (str ''hi'')\<rparr>])
                (str ''English'') None) \<or>
         send_message api_down
             (build ([] @ [\<lparr>role = str ''user'', content = strip (str ''hi'')\<rparr>])
                (str ''English'') None)
             (strip (str ''hi'')) = Raises"
    by (simp add: api_down_def)
  show ?thesis
    using hi_not_blank remote_failure_still_appends [OF TrueI hi_not_blank f]
    by (simp add: strip_hi api_down_def)
qed

subsection \<open>An attachment and the empty list\<close>

text \<open>
  Claim C2, as the program has it. With an attachment and the empty message list the
  payload builder signals nothing and returns a payload of two turns;
  \<open>get_medibot_reply\<close> returns the fixed internal-error string, and \<^verbatim>\<open>send_message\<close>
  is not called. The handler appends the user message before the call, so that the list is
  not empty when the payload is built in a turn: the attachment is then on the turn of that
  user message.
\<close>

theorem empty_transcript_with_attachment:
  assumes "b64 \<noteq> []"
  shows "length (build [] language (Some b64)) = 2 \<and>
         fst (get_medibot_reply api [] language (Some b64)) = internal_error \<and>
         \<not> list_ex (\<lambda>ev. case ev of Send_message h c \<Rightarrow> True | _ \<Rightarrow> False)
             (snd (get_medibot_reply api [] language (Some b64))) \<and>
         (submitted \<and> strip user_input \<noteq> [] \<longrightarrow>
            fst (handle_turn api submitted user_input (Some b64) []) =
              [\<lparr>role = str ''user'', content = strip user_input\<rparr>,
               \<lparr>role = str ''assistant'',
                content = fst (get_medibot_reply api
                  [\<lparr>role = str ''user'', content = strip user_input\<rparr>] (str ''English'') (Some b64))\<rparr>] \<and>
            last (build [\<lparr>role = str ''user'', content = strip user_input\<rparr>] (str ''English'') (Some b64)) =
              \<lparr>turn_role = str ''user'', parts = [Text (strip user_input), inline_part b64]\<rparr>)"
proof -
  have "length (build [] language (Some b64)) = 2"
    by (simp add: build_eq add_attachment_length priming_pair_def del: add_attachment.simps)
  moreover have "fst (get_medibot_reply api [] language (Some b64)) = internal_error"
    by (simp add: get_medibot_reply_def try_body_def Let_def except_handler_def)
  moreover have "\<not> list_ex (\<lambda>ev. case ev of Send_message h c \<Rightarrow> True | _ \<Rightarrow> False)
             (snd (get_medibot_reply api [] language (Some b64)))"
    by (simp add: get_medibot_reply_def try_body_def Let_def except_handler_def)
  moreover have "last (build [\<lparr>role = str ''user'', content = strip user_input\<rparr>] (str ''English'') (Some b64)) =
              \<lparr>turn_role = str ''user'', parts = [Text (strip user_input), inline_part b64]\<rparr>"
    using assms by (simp add: build_def)
  ultimately show ?thesis
    by (simp add: handle_turn_accepted user_msg_def bot_msg_def)
qed

theorem empty_transcript_with_attachment_witness:
  "str ''QUJD'' \<noteq> [] \<and>
   get_medibot_reply api_down [] (str ''English'') (Some (str ''QUJD'')) =
     (internal_error, [Start_chat (build [] (str ''English'') (Some (str ''QUJD''))), St_error IndexError]) \<and>
   fst (handle_turn api_down True (str ''hi'') (Some (str ''QUJD'')) []) =
     [\<lparr>role = str ''user'', content = str ''hi''\<rparr>,
      \<lparr>role = str ''assistant'', content = internal_error\<rparr>]"
proof -
  have h: "str ''QUJD'' \<noteq> []" by (simp add: str_def)
  have g: "fst (get_medibot_reply api_down [\<lparr>role = str ''user'', content = str ''hi''\<rparr>]
             (str ''English'') (Some (str ''QUJD''))) = internal_error"
    by (simp add: get_medibot_reply_def try_body_def api_down_def Let_def after_send_def
          except_handler_def)
  have e: "get_medibot_reply api_down [] (str ''English'') (Some (str ''QUJD'')) =
     (internal_error, [Start_chat (build [] (str ''English'') (Some (str ''QUJD''))), St_error IndexError])"
    by (simp add: get_medibot_reply_def try_body_def api_down_def Let_def except_handler_def)
  show ?thesis
    using h e empty_transcript_with_attachment [OF h, of "str ''English''" api_down True "str ''hi''"]
    by (simp add: strip_hi g hi_nonempty)
qed

text \<open>
  The builder does not reject an attachment with the empty list: it returns a payload,
  with the inline data on the \<^verbatim>\<open>model\<close> turn of the priming pair, and
  \<^verbatim>\<open>start_chat\<close> is called with it.
\<close>

theorem build_no_precondition_failure_counterexample:
  "build [] (str ''English'') (Some (str ''QUJD'')) =
     [\<lparr>turn_role = str ''user'', parts = [Text (SYSTEM_PROMPT_format (str ''English''))]\<rparr>,
      \<lparr>turn_role = str ''model'',
       parts = [Text acknowledgment, Inline_data (str ''image/png'') (str ''QUJD'')]\<rparr>] \<and>
   snd (get_medibot_reply api_down [] (str ''English'') (Some (str ''QUJD''))) =
     [Start_chat
        [\<lparr>turn_role = str ''user'', parts = [Text (SYSTEM_PROMPT_format (str ''English''))]\<rparr>,
         \<lparr>turn_role = str ''model'',
          parts = [Text acknowledgment, Inline_data (str ''image/png'') (str ''QUJD'')]\<rparr>],
      St_error IndexError]"
proof -
  have b: "build [] (str ''English'') (Some (str ''QUJD'')) =
     [\<lparr>turn_role = str ''user'', parts = [Text (SYSTEM_PROMPT_format (str ''English''))]\<rparr>,
      \<lparr>turn_role = str ''model'',
       parts = [Text acknowledgment, Inline_data (str ''image/png'') (str ''QUJD'')]\<rparr>]"
    by (simp add: build_def priming_pair_def inline_part_def) (simp add: str_def)
  show ?thesis
    by (simp only: b) (simp add: get_medibot_reply_def try_body_def api_down_def Let_def except_handler_def b)
qed

subsection \<open>Facts about the store\<close>

lemma take_list_append: "n \<le> a \<Longrightarrow> take n (list_append a v s) = take n s"
  by (simp add: list_append_def split: pyobj.splits)

lemma length_list_append: "length (list_append a v s) = length s"
  by (simp add: list_append_def split: pyobj.splits)

lemma append_turn_eq:
  "append_turn a_h r c s =
     list_append a_h (VRef (Suc (length s)))
       (s @ [PyList [c], PyDict [(str ''role'', VStr r), (str ''parts'', VRef (length s))]])"
  by (simp add: append_turn_def alloc_def)

lemma length_append_turn: "length (append_turn a_h r c s) = length s + 2"
  by (simp add: append_turn_eq length_list_append)

lemma take_append_turn:
  "n \<le> a_h \<Longrightarrow> n \<le> length s \<Longrightarrow> take n (append_turn a_h r c s) = take n s"
  by (simp add: append_turn_eq take_list_append)

lemma parts_key: "dict_get [(str ''role'', VStr r), (str ''parts'', VRef p)] (str ''parts'') = VRef p"
  by (simp add: dict_get_def str_def)

lemma fresh_turn_extend:
  assumes "fresh_turn n s v" and "a_h < length s" and "s ! a_h = PyList vs"
  shows "fresh_turn n ((s @ t)[a_h := PyList ws]) v"
proof (cases v)
  case (VRef d)
  then have d: "d < length s" using assms(1) by simp
  have "d \<noteq> a_h" using assms VRef by (auto split: pyobj.splits)
  then have "((s @ t)[a_h := PyList ws]) ! d = s ! d" using d by (simp add: nth_append)
  then show ?thesis using assms(1) VRef d by simp
qed (use assms in simp_all)

lemma fresh_history_append_turn:
  assumes "fresh_history n a_h s" and "n \<le> length s"
  shows "fresh_history n a_h (append_turn a_h r c s)"
proof -
  from assms(1) obtain vs where a: "n \<le> a_h" "a_h < length s" "s ! a_h = PyList vs"
    and all: "list_all (fresh_turn n s) vs"
    by (auto simp: fresh_history_def split: pyobj.splits)
  let ?t = "[PyList [c], PyDict [(str ''role'', VStr r), (str ''parts'', VRef (length s))]]"
  let ?ws = "vs @ [VRef (Suc (length s))]"
  let ?s' = "(s @ ?t)[a_h := PyList ?ws]"
  have eq: "append_turn a_h r c s = ?s'"
    using a by (simp add: append_turn_eq list_append_def nth_append)
  have old: "list_all (fresh_turn n ?s') vs"
    using all a fresh_turn_extend[of n s _ a_h vs ?t ?ws] by (simp add: list_all_iff)
  have "?s' ! Suc (length s) = PyDict [(str ''role'', VStr r), (str ''parts'', VRef (length s))]"
    using a by (simp add: nth_append)
  then have new: "fresh_turn n ?s' (VRef (Suc (length s)))"
    using assms(2) by (simp add: parts_key)
  have "?s' ! a_h = PyList ?ws" using a by simp
  then show ?thesis
    unfolding eq fresh_history_def using a old new by simp
qed

lemma store_add_history_frame:
  "fresh_history n a_h s \<Longrightarrow> n \<le> length s \<Longrightarrow>
   take n (snd (store_add_history a_h vs s)) = take n s \<and>
   length s \<le> length (snd (store_add_history a_h vs s)) \<and>
   fresh_history n a_h (snd (store_add_history a_h vs s))"
proof (induction a_h vs s rule: store_add_history.induct)
  case (1 a_h s)
  then show ?case by simp
next
  case (2 a_h d vs s)
  show ?case
  proof (cases "d < length s")
    case False
    then show ?thesis using "2.prems" by simp
  next
    case True
    show ?thesis
    proof (cases "s ! d")
      case (PyList xs)
      then show ?thesis using True "2.prems" by simp
    next
      case (PyDict kvs)
      have step: "fresh_history n a_h (append_turn a_h r c s)"
        "n \<le> length (append_turn a_h r c s)"
        "take n (append_turn a_h r c s) = take n s"
        "length s \<le> length (append_turn a_h r c s)" for r c
        using "2.prems" fresh_history_append_turn[of n a_h s r c]
          take_append_turn[of n a_h s r c]
        by (simp_all add: length_append_turn fresh_history_def)
      consider (u) "dict_get kvs (str ''role'') = VStr (str ''user'')"
        | (a) "dict_get kvs (str ''role'') \<noteq> VStr (str ''user'')"
              "dict_get kvs (str ''role'') = VStr (str ''assistant'')"
        | (o) "dict_get kvs (str ''role'') \<noteq> VStr (str ''user'')"
              "dict_get kvs (str ''role'') \<noteq> VStr (str ''assistant'')"
        by blast
      then show ?thesis
      proof cases
        case u
        then show ?thesis
          using "2.IH"(1)[OF True PyDict u step(1,2)] step(3) True PyDict
            by (simp add: length_append_turn)
      next
        case a
        then show ?thesis
          using "2.IH"(2)[OF True PyDict a step(1,2)] step(3) True PyDict
            by (simp add: length_append_turn)
      next
        case o
        then show ?thesis
          using "2.IH"(3)[OF True PyDict o "2.prems"] True PyDict by simp
      qed
    qed
  qed
qed simp_all

lemma store_add_attachment_frame:
  assumes "fresh_history n a_h s" and "n \<le> length s"
  shows "take n (store_add_attachment att a_h s) = take n s \<and>
         length s \<le> length (store_add_attachment att a_h s)"
proof (cases att)
  case None
  then show ?thesis by (simp add: store_add_attachment_def)
next
  case (Some b64)
  from assms(1) obtain vs where a: "n \<le> a_h" "a_h < length s" "s ! a_h = PyList vs"
    and all: "list_all (fresh_turn n s) vs"
    by (auto simp: fresh_history_def split: pyobj.splits)
  have el: "store_elems s a_h = vs" using a by (simp add: store_elems_def)
  show ?thesis
  proof (cases "b64 \<noteq> [] \<and> vs \<noteq> []")
    case False
    then show ?thesis using Some el by (auto simp: store_add_attachment_def)
  next
    case True
    then have "last vs \<in> set vs" by simp
    then have "fresh_turn n s (last vs)" using all by (simp add: list_all_iff)
    then obtain d kvs p where d: "last vs = VRef d" "d < length s" "s ! d = PyDict kvs"
      "dict_get kvs (str ''parts'') = VRef p" "n \<le> p"
      by (cases "last vs") (auto split: pyobj.splits pyval.splits)
    then show ?thesis
      using Some True el assms(2)
      by (simp add: store_add_attachment_def alloc_def take_list_append length_list_append)
  qed
qed

lemma store_build_frame:
  "take (length s) (snd (store_build s a_msgs language att)) = s \<and>
   length s \<le> length (snd (store_build s a_msgs language att))"
proof -
  let ?n = "length s"
  let ?s1 = "s @ [PyList []]"
  let ?s2 = "append_turn ?n (str ''user'') (VStr (SYSTEM_PROMPT_format language)) ?s1"
  let ?s3 = "append_turn ?n (str ''model'') (VStr acknowledgment) ?s2"
  let ?r = "store_add_history ?n (store_elems ?s3 a_msgs) ?s3"
  have f1: "fresh_history ?n ?n ?s1" by (simp add: fresh_history_def)
  have f2: "fresh_history ?n ?n ?s2" using f1 by (rule fresh_history_append_turn) simp
  have f3: "fresh_history ?n ?n ?s3" using f2 by (rule fresh_history_append_turn) (simp add: length_append_turn)
  have t3: "take ?n ?s3 = s" "?n \<le> length ?s3"
    by (simp_all add: take_append_turn length_append_turn)
  have h: "take ?n (snd ?r) = take ?n ?s3" "length ?s3 \<le> length (snd ?r)" "fresh_history ?n ?n (snd ?r)"
    using store_add_history_frame[OF f3 t3(2), of "store_elems ?s3 a_msgs"] by simp_all
  have n4: "?n \<le> length (snd ?r)" using h(2) t3(2) by simp
  have at: "take ?n (store_add_attachment att ?n (snd ?r)) = take ?n (snd ?r)"
    "length (snd ?r) \<le> length (store_add_attachment att ?n (snd ?r))"
    using store_add_attachment_frame[OF h(3) n4, of att] by simp_all
  have sb: "snd (store_build s a_msgs language att) =
      (if fst ?r then store_add_attachment att ?n (snd ?r) else snd ?r)"
    by (simp add: store_build_def alloc_def Let_def split: prod.splits)
  show ?thesis
    unfolding sb using h(1) t3(1) at n4 by auto
qed

subsection \<open>The builder on the store builds the payload\<close>

lemma length_layout: "length (layout p xs) = 2 * length xs"
  by (induction xs arbitrary: p) simp_all

lemma layout_snoc:
  "layout p (xs @ [x]) =
     layout p xs @
     [PyList (snd x), PyDict [(str ''role'', VStr (fst x)), (str ''parts'', VRef (p + 2 * length xs))]]"
  by (induction xs arbitrary: p) simp_all

lemma length_hist_store: "length (hist_store s0 xs) = length s0 + 1 + 2 * length xs"
  by (simp add: hist_store_def length_layout)

lemma hist_store_old: "d < length s0 \<Longrightarrow> hist_store s0 xs ! d = s0 ! d"
  by (simp add: hist_store_def nth_append)

lemma hist_store_list: "hist_store s0 xs ! length s0 = hist_list (length s0) (length xs)"
  by (simp add: hist_store_def)

lemma append_turn_hist:
  "append_turn (length s0) r c (hist_store s0 xs) = hist_store s0 (xs @ [(r, [c])])"
proof -
  let ?S = "hist_store s0 xs"
  let ?t = "[PyList [c], PyDict [(str ''role'', VStr r), (str ''parts'', VRef (length ?S))]]"
  have l: "length ?S = length s0 + 1 + 2 * length xs" by (rule length_hist_store)
  have nth: "(?S @ ?t) ! length s0 = hist_list (length s0) (length xs)"
    using hist_store_list[of s0 xs] l by (simp add: nth_append)
  have "append_turn (length s0) r c ?S =
      (?S @ ?t)[length s0 := PyList (map (\<lambda>i. VRef (length s0 + 2 + 2 * i)) [0..<length xs] @
                                        [VRef (Suc (length ?S))])]"
    using nth l by (simp add: append_turn_eq list_append_def hist_list_def)
  also have "\<dots> = hist_store s0 (xs @ [(r, [c])])"
    by (simp add: hist_store_def layout_snoc l hist_list_def list_update_append length_layout)
  finally show ?thesis .
qed

lemma msg_obj_get:
  "dict_get [(str ''role'', VStr r), (str ''content'', VStr c)] (str ''role'') = VStr r"
  "dict_get [(str ''role'', VStr r), (str ''content'', VStr c)] (str ''content'') = VStr c"
  by (simp_all add: dict_get_def str_def)

lemma store_add_history_hist:
  assumes "list_all2 (\<lambda>d m. d < length s0 \<and> s0 ! d = msg_obj m) ds ms"
  shows "store_add_history (length s0) (map VRef ds) (hist_store s0 xs) =
           (True, hist_store s0 (xs @ map turn_vals (add_history [] ms)))"
  using assms
proof (induction ds ms arbitrary: xs rule: list_all2_induct)
  case Nil
  show ?case by simp
next
  case (Cons d ds m ms)
  have d: "d < length (hist_store s0 xs)" "hist_store s0 xs ! d = msg_obj m"
    using Cons.hyps(1) by (simp_all add: length_hist_store hist_store_old)
  have ah: "add_history [t] ms = t # add_history [] ms" for t
    using add_history_append[of "[t]" ms] by simp
  show ?case
    using d Cons.IH
    by (simp add: msg_obj_def msg_obj_get append_turn_hist ah turn_vals_def)
qed

lemma layout_nth:
  "i < length xs \<Longrightarrow>
   layout p xs ! (2 * i) = PyList (snd (xs ! i)) \<and>
   layout p xs ! Suc (2 * i) =
     PyDict [(str ''role'', VStr (fst (xs ! i))), (str ''parts'', VRef (p + 2 * i))]"
proof (induction xs arbitrary: p i)
  case Nil
  then show ?case by simp
next
  case (Cons x xs)
  show ?case
  proof (cases i)
    case 0
    then show ?thesis by simp
  next
    case (Suc j)
    then have "j < length xs" using Cons.prems by simp
    from Cons.IH[OF this, of "p + 2"] show ?thesis using Suc by simp
  qed
qed

lemma those_map_Some:
  "(\<And>x. x \<in> set xs \<Longrightarrow> f x = Some (g x)) \<Longrightarrow> those (map f xs) = Some (map g xs)"
  by (induction xs) simp_all

lemma turn_get:
  "dict_get [(str ''role'', VStr r), (str ''parts'', VRef p)] (str ''role'') = VStr r"
  by (simp add: dict_get_def)

text \<open>Reading back a store laid out as \<open>hist_store\<close>, with more objects after it.\<close>

lemma read_payload_layout:
  assumes S: "S = s0 @ hist_list (length s0) (length xs) # layout (length s0 + 1) xs @ extra"
    and ps: "\<And>x. x \<in> set xs \<Longrightarrow> those (map (read_part S) (snd x)) = Some (g x)"
  shows "read_payload S (length s0) =
           Some (map (\<lambda>x. \<lparr>turn_role = fst x, parts = g x\<rparr>) xs)"
proof -
  let ?n = "length s0"
  let ?k = "length xs"
  have len: "length S = ?n + 1 + 2 * ?k + length extra"
    by (simp add: S length_layout)
  have at: "S ! (?n + 1 + j) = layout (?n + 1) xs ! j" if "j < 2 * ?k" for j
    using that by (simp add: S nth_append length_layout)
  have rt: "read_turn S (VRef (?n + 2 + 2 * i)) = Some \<lparr>turn_role = fst (xs ! i), parts = g (xs ! i)\<rparr>"
    if "i < ?k" for i
  proof -
    have d: "S ! (?n + 2 + 2 * i) =
        PyDict [(str ''role'', VStr (fst (xs ! i))), (str ''parts'', VRef (?n + 1 + 2 * i))]"
      using at[of "Suc (2 * i)"] layout_nth[OF that, of "?n + 1"] that by simp
    have p: "S ! (?n + 1 + 2 * i) = PyList (snd (xs ! i))"
      using at[of "2 * i"] layout_nth[OF that, of "?n + 1"] that by simp
    have "xs ! i \<in> set xs" using that by simp
    then have r: "those (map (read_part S) (snd (xs ! i))) = Some (g (xs ! i))" by (rule ps)
    have b: "?n + 2 + 2 * i < length S" "?n + 1 + 2 * i < length S" using that len by simp_all
    have rp: "read_parts S (VRef (?n + 1 + 2 * i)) = Some (g (xs ! i))"
      using b(2) p r by simp
    show ?thesis
      using b(1) d rp by (simp add: turn_get parts_key)
  qed
  have "map (read_turn S) (map (\<lambda>i. VRef (?n + 2 + 2 * i)) [0..<?k]) =
        map (\<lambda>i. Some \<lparr>turn_role = fst (xs ! i), parts = g (xs ! i)\<rparr>) [0..<?k]"
    using rt by simp
  also have "\<dots> = map (\<lambda>x. Some \<lparr>turn_role = fst x, parts = g x\<rparr>) xs"
    by (rule nth_equalityI) simp_all
  finally have m: "map (read_turn S) (map (\<lambda>i. VRef (?n + 2 + 2 * i)) [0..<?k]) =
      map (\<lambda>x. Some \<lparr>turn_role = fst x, parts = g x\<rparr>) xs" .
  have "those (map (\<lambda>x. Some \<lparr>turn_role = fst x, parts = g x\<rparr>) xs) =
      Some (map (\<lambda>x. \<lparr>turn_role = fst x, parts = g x\<rparr>) xs)"
    by (rule those_map_Some) simp
  moreover have "S ! ?n = hist_list ?n ?k" by (simp add: S)
  ultimately show ?thesis
    using len m by (simp add: read_payload_def hist_list_def)
qed

lemma store_add_attachment_hist:
  assumes "b64 \<noteq> []"
  shows "store_add_attachment (Some b64) (length s0) (hist_store s0 (ys @ [x])) =
           s0 @ hist_list (length s0) (Suc (length ys)) #
           layout (length s0 + 1)
             (ys @ [(fst x, snd x @ [VRef (length s0 + 4 + 2 * length ys)])]) @
           inline_objs (length s0 + 3 + 2 * length ys) b64"
proof -
  let ?n = "length s0"
  let ?S = "hist_store s0 (ys @ [x])"
  let ?p = "?n + 1 + 2 * length ys"
  let ?d = "?n + 2 + 2 * length ys"
  have S: "?S = s0 @ hist_list ?n (Suc (length ys)) # layout (?n + 1) ys @
      [PyList (snd x), PyDict [(str ''role'', VStr (fst x)), (str ''parts'', VRef ?p)]]"
    by (simp add: hist_store_def layout_snoc)
  have len: "length ?S = ?n + 3 + 2 * length ys"
    by (simp add: length_hist_store)
  have el: "store_elems ?S ?n = map (\<lambda>i. VRef (?n + 2 + 2 * i)) [0..<length ys] @ [VRef ?d]"
    using len hist_store_list[of s0 "ys @ [x]"] by (simp add: store_elems_def hist_list_def)
  have d: "?S ! ?d = PyDict [(str ''role'', VStr (fst x)), (str ''parts'', VRef ?p)]"
    by (simp add: S nth_append length_layout nth_Cons')
  have p: "?S ! ?p = PyList (snd x)"
    by (simp add: S nth_append length_layout nth_Cons')
  have "store_add_attachment (Some b64) ?n ?S =
      list_append ?p (VRef (Suc (length ?S))) (?S @ inline_objs (length ?S) b64)"
    using assms el d len by (simp add: store_add_attachment_def parts_key alloc_def inline_objs_def)
  also have "\<dots> = (?S @ inline_objs (length ?S) b64)[?p := PyList (snd x @ [VRef (Suc (length ?S))])]"
    using p len by (simp add: list_append_def nth_append)
  also have "\<dots> = ?S[?p := PyList (snd x @ [VRef (Suc (length ?S))])] @ inline_objs (length ?S) b64"
    using len by (simp add: list_update_append)
  also have "?S[?p := PyList (snd x @ [VRef (Suc (length ?S))])] =
      s0 @ hist_list ?n (Suc (length ys)) #
      layout (?n + 1) (ys @ [(fst x, snd x @ [VRef (Suc (length ?S))])])"
    by (simp add: S layout_snoc list_update_append length_layout nth_Cons' list_update_code
          split: nat.splits)
  finally show ?thesis
    using len by (simp add: ac_simps)
qed

lemma read_text_parts:
  assumes "\<not> carries_inline t"
  shows "those (map (read_part S) (map part_val (parts t))) = Some (parts t)"
proof -
  have "read_part S (part_val p) = Some p" if "p \<in> set (parts t)" for p
  proof (cases p)
    case (Text c)
    then show ?thesis by simp
  next
    case (Inline_data m d)
    then show ?thesis using that assms by (auto simp: carries_inline_def list_ex_iff)
  qed
  then have "those (map (\<lambda>p. read_part S (part_val p)) (parts t)) = Some (map (\<lambda>p. p) (parts t))"
    by (rule those_map_Some)
  then show ?thesis by (simp add: comp_def)
qed

lemma those_snoc: "those xs = Some ys \<Longrightarrow> those (xs @ [Some y]) = Some (ys @ [y])"
  by (induction xs arbitrary: ys) (auto split: option.splits)

lemma history_no_inline:
  "t \<in> set (priming_pair lang @ add_history [] ms) \<Longrightarrow> \<not> carries_inline t"
  using priming_no_inline[of lang] add_history_no_inline[of ms]
  by (auto simp: list_ex_iff)

lemma read_payload_turns:
  assumes len: "length xs = length ts"
    and S: "S = s0 @ hist_list (length s0) (length xs) # layout (length s0 + 1) xs @ extra"
    and el: "\<And>i. i < length ts \<Longrightarrow>
               fst (xs ! i) = turn_role (ts ! i) \<and>
               those (map (read_part S) (snd (xs ! i))) = Some (parts (ts ! i))"
  shows "read_payload S (length s0) = Some ts"
proof -
  let ?g = "\<lambda>x. the (those (map (read_part S) (snd x)))"
  have "those (map (read_part S) (snd x)) = Some (?g x)" if "x \<in> set xs" for x
  proof -
    from that obtain i where "i < length xs" "x = xs ! i" by (auto simp: in_set_conv_nth)
    then show ?thesis using el[of i] len by simp
  qed
  with S have "read_payload S (length s0) = Some (map (\<lambda>x. \<lparr>turn_role = fst x, parts = ?g x\<rparr>) xs)"
    by (rule read_payload_layout)
  moreover have "map (\<lambda>x. \<lparr>turn_role = fst x, parts = ?g x\<rparr>) xs = ts"
    using len el by (intro nth_equalityI) simp_all
  ultimately show ?thesis by simp
qed

lemma store_build_hist:
  assumes "a_msgs < length s" and "s ! a_msgs = PyList (map VRef ds)"
    and "list_all2 (\<lambda>d m. d < length s \<and> s ! d = msg_obj m) ds ms"
  shows "store_build s a_msgs lang att =
           (Some (length s),
            store_add_attachment att (length s)
              (hist_store s (map turn_vals (priming_pair lang @ add_history [] ms))))"
proof -
  let ?pp = "[(str ''user'', [VStr (SYSTEM_PROMPT_format lang)]), (str ''model'', [VStr acknowledgment])]"
  have s1: "s @ [PyList []] = hist_store s []"
    by (simp add: hist_store_def hist_list_def)
  have s3: "append_turn (length s) (str ''model'') (VStr acknowledgment)
      (append_turn (length s) (str ''user'') (VStr (SYSTEM_PROMPT_format lang)) (s @ [PyList []])) =
      hist_store s ?pp"
    by (simp add: s1 append_turn_hist)
  have pp: "map turn_vals (priming_pair lang) = ?pp"
    by (simp add: priming_pair_def turn_vals_def)
  have el: "store_elems (hist_store s ?pp) a_msgs = map VRef ds"
    using assms(1,2) by (simp add: store_elems_def length_hist_store hist_store_old)
  have "store_add_history (length s) (map VRef ds) (hist_store s ?pp) =
      (True, hist_store s (?pp @ map turn_vals (add_history [] ms)))"
    using assms(3) by (rule store_add_history_hist)
  then show ?thesis
    unfolding store_build_def alloc_def by (simp add: s3 el pp)
qed

text \<open>
  The two versions of the builder agree: when the store holds the messages \<open>ms\<close> as a
  list of dicts at \<open>a_msgs\<close>, the builder on the store returns the address of a list
  that reads back as \<open>build ms lang att\<close>.
\<close>

lemma store_build_refines:
  assumes "a_msgs < length s" and "s ! a_msgs = PyList (map VRef ds)"
    and "list_all2 (\<lambda>d m. d < length s \<and> s ! d = msg_obj m) ds ms"
  shows "fst (store_build s a_msgs lang att) = Some (length s) \<and>
         read_payload (snd (store_build s a_msgs lang att)) (length s) = Some (build ms lang att)"
proof -
  let ?n = "length s"
  let ?h = "priming_pair lang @ add_history [] ms"
  let ?S = "hist_store s (map turn_vals ?h)"
  have sb: "store_build s a_msgs lang att = (Some ?n, store_add_attachment att ?n ?S)"
    using assms by (rule store_build_hist)
  have b: "build ms lang att = add_attachment att ?h" by (rule build_eq)
  have plain: "read_payload ?S ?n = Some ?h"
  proof (rule read_payload_turns)
    show "length (map turn_vals ?h) = length ?h" by simp
    show "?S = s @ hist_list ?n (length (map turn_vals ?h)) # layout (?n + 1) (map turn_vals ?h) @ []"
      by (simp add: hist_store_def)
    fix i assume i: "i < length ?h"
    have nm: "map turn_vals ?h ! i = turn_vals (?h ! i)" using i by (rule nth_map)
    have "?h ! i \<in> set ?h" using i by (rule nth_mem)
    then have "\<not> carries_inline (?h ! i)" by (rule history_no_inline)
    then have "those (map (read_part ?S) (map part_val (parts (?h ! i)))) = Some (parts (?h ! i))"
      by (rule read_text_parts)
    then show "fst (map turn_vals ?h ! i) = turn_role (?h ! i) \<and>
        those (map (read_part ?S) (snd (map turn_vals ?h ! i))) = Some (parts (?h ! i))"
      unfolding nm by (simp add: turn_vals_def)
  qed
  have "read_payload (store_add_attachment att ?n ?S) ?n = Some (add_attachment att ?h)"
  proof (cases att)
    case None
    then show ?thesis using plain by (simp add: store_add_attachment_def)
  next
    case (Some b64)
    show ?thesis
    proof (cases "b64 = []")
      case True
      then show ?thesis using plain Some by (simp add: store_add_attachment_def)
    next
      case False
      have hne: "?h \<noteq> []" by (simp add: priming_pair_def)
      let ?ys = "map turn_vals (butlast ?h)"
      let ?x = "turn_vals (last ?h)"
      let ?j = "?n + 4 + 2 * length ?ys"
      let ?xs = "?ys @ [(fst ?x, snd ?x @ [VRef ?j])]"
      let ?ts = "butlast ?h @ [(last ?h)\<lparr>parts := parts (last ?h) @ [inline_part b64]\<rparr>]"
      let ?S' = "s @ hist_list ?n (Suc (length ?ys)) # layout (?n + 1) ?xs @
                 inline_objs (?n + 3 + 2 * length ?ys) b64"
      have split: "map turn_vals ?h = ?ys @ [?x]"
      proof -
        have e: "butlast ?h @ [last ?h] = ?h"
          using hne by (rule append_butlast_last_id)
        have "map turn_vals (butlast ?h @ [last ?h]) = ?ys @ [?x]"
          by (simp only: map_append list.map)
        then show ?thesis unfolding e .
      qed
      have S': "store_add_attachment (Some b64) ?n ?S = ?S'"
        unfolding split using False by (rule store_add_attachment_hist)
      have lenS: "length ?S' = ?n + 5 + 2 * length ?ys"
        by (simp add: length_layout inline_objs_def)
      have inl: "read_part ?S' (VRef ?j) = Some (inline_part b64)"
      proof -
        have "?S' ! ?j = PyDict [(str ''inline_data'', VRef (?n + 3 + 2 * length ?ys))]"
          by (simp add: nth_append length_layout inline_objs_def nth_Cons')
        moreover have "?S' ! (?n + 3 + 2 * length ?ys) =
            PyDict [(str ''mime_type'', VStr (str ''image/png'')), (str ''data'', VStr b64)]"
          by (simp add: nth_append length_layout inline_objs_def nth_Cons')
        ultimately show ?thesis
          using lenS by (simp add: inline_part_def dict_get_def) (simp add: str_def)
      qed
      have "read_payload ?S' ?n = Some ?ts"
      proof (rule read_payload_turns)
        show "length ?xs = length ?ts" by simp
        show "?S' = s @ hist_list ?n (length ?xs) # layout (?n + 1) ?xs @
            inline_objs (?n + 3 + 2 * length ?ys) b64"
          by simp
        fix i assume i: "i < length ?ts"
        show "fst (?xs ! i) = turn_role (?ts ! i) \<and>
            those (map (read_part ?S') (snd (?xs ! i))) = Some (parts (?ts ! i))"
        proof (cases "i < length (butlast ?h)")
          case True
          then have "butlast ?h ! i \<in> set (butlast ?h)" by (rule nth_mem)
          then have "butlast ?h ! i \<in> set ?h" by (rule in_set_butlastD)
          then have "\<not> carries_inline (butlast ?h ! i)" by (rule history_no_inline)
          then show ?thesis
            using True read_text_parts[of "butlast ?h ! i" ?S']
            by (simp add: nth_append turn_vals_def)
        next
          case False
          then have ieq: "i = length (butlast ?h)" using i by simp
          have "last ?h \<in> set ?h" using hne by (rule last_in_set)
          then have "\<not> carries_inline (last ?h)" by (rule history_no_inline)
          then have "those (map (read_part ?S') (map part_val (parts (last ?h)))) = Some (parts (last ?h))"
            by (rule read_text_parts)
          then have "those (map (read_part ?S') (map part_val (parts (last ?h)) @ [VRef ?j])) =
              Some (parts (last ?h) @ [inline_part b64])"
            using inl by (simp add: those_snoc)
          then show ?thesis
            using ieq by (simp add: nth_append turn_vals_def)
        qed
      qed
      then show ?thesis
        using Some False hne S' by simp
    qed
  qed
  then show ?thesis
    by (simp add: sb b)
qed

lemma store0_length: "length store0 = 3"
  by (simp add: store0_def)

subsection \<open>The builder leaves the transcript alone\<close>

text \<open>
  Claim C9. Building the payload changes no object that was there before: the store after
  lines 39 to 58 begins with the store before them, so the list of messages and every
  message in it (role, content and whatever else it holds) are as they were, and the
  attachment, which the builder writes into new objects only, is in no message of the
  transcript. The handler, in turn, keeps the messages the list had and appends messages
  of a role and a content only.
\<close>

theorem build_leaves_transcript:
  "take (length s) (snd (store_build s a_msgs language attachment_b64)) = s \<and>
   length s \<le> length (snd (store_build s a_msgs language attachment_b64)) \<and>
   take (length messages)
     (fst (handle_turn api submitted user_input attachment_b64 messages)) = messages"
proof -
  have "take (length messages)
     (fst (handle_turn api submitted user_input attachment_b64 messages)) = messages"
    by (simp add: handle_turn_def Let_def)
  then show ?thesis
    using store_build_frame [of s a_msgs language attachment_b64] by simp
qed

theorem build_leaves_transcript_witness:
  "take 3 (snd (store_build store0 0 (str ''English'') (Some (str ''QUJD'')))) = store0 \<and>
   take 1 (fst (handle_turn api_down True (str ''hi'') (Some (str ''QUJD''))
                  [\<lparr>role = str ''user'', content = str ''a''\<rparr>])) =
     [\<lparr>role = str ''user'', content = str ''a''\<rparr>]"
  using build_leaves_transcript
    [of store0 0 "str ''English''" "Some (str ''QUJD'')"
        "[\<lparr>role = str ''user'', content = str ''a''\<rparr>]" api_down True "str ''hi''"]
    store0_length
  by simp


end
